theory Spec2Isabelle
  imports Main "HOL-Library.Sublist" "HOL-Library.AList"
begin

section \<open>Data model of internal/agent/openai.go\<close>

text \<open>
  The agent package's message types. Go strings are byte sequences and are modelled as
  \<^typ>\<open>string\<close>. Slices whose only use is \<open>len\<close>, \<open>range\<close> and \<open>append\<close> are lists.
\<close>

record FunctionCall =
  Name :: string
  Arguments :: string
  ID :: string

record ToolCall =
  tc_ID :: string
  tc_Type :: string
  tc_Function :: FunctionCall

record Message =
  Role :: string
  Content :: string
  ToolCalls :: "ToolCall list"
  ToolCallID :: string
  msg_Name :: string

text \<open>
  \<open>ResponseItem\<close> is what the handler receives (as JSON). Its \<open>ThinkingDuration\<close> field is
  wall-clock time (\<open>time.Since(startTime)\<close>) and is left out of the model.
\<close>

record ResponseItem =
  item_Type :: string
  item_Message :: "Message option"
  item_FunctionCall :: "FunctionCall option"

text \<open>The types of the go-openai client library, restricted to the fields the agent uses.\<close>

record openai_FunctionCall =
  oa_Name :: string
  oa_Arguments :: string

record openai_ToolCall =
  oa_ID :: string
  oa_Type :: string
  oa_Function :: openai_FunctionCall

record ChatCompletionMessage =
  cm_Role :: string
  cm_Content :: string
  cm_ToolCalls :: "openai_ToolCall list"
  cm_ToolCallID :: string

text \<open>
  A streamed delta. \<open>Delta.ToolCalls\<close> is a slice that the code tests both against \<open>nil\<close>
  and for its length, so it is an optional list: \<open>None\<close> is the nil slice.
\<close>

record ChatCompletionStreamChoiceDelta =
  delta_Role :: string
  delta_Content :: string
  delta_ToolCalls :: "openai_ToolCall list option"

record ChatCompletionStreamChoice =
  Delta :: ChatCompletionStreamChoiceDelta
  FinishReason :: string

text \<open>A stream response is its \<open>Choices\<close> slice.\<close>

type_synonym ChatCompletionStreamResponse = "ChatCompletionStreamChoice list"

text \<open>
  What a stream does, seen from the agent: \<open>CreateChatCompletionStream\<close> fails, or it
  returns a stream whose \<open>Recv\<close> yields the responses in order and then either \<open>io.EOF\<close>
  or another error (a transport failure, or the error of a cancelled context).
\<close>

datatype StreamEnd = EOF | RecvError

datatype ChatCompletionStream =
  CreateError
| Stream "ChatCompletionStreamResponse list" StreamEnd

datatype error =
  ErrCreateStream
| ErrRecv
| ErrHistoryNil
| NilPointerPanic

text \<open>
  The agent. \<open>history\<close> is a pointer to the conversation history: \<open>None\<close> is \<open>nil\<close>, and the
  history itself is its ordered message log. \<open>currentHandler\<close> records whether a handler is
  stored. \<open>pendingToolCalls\<close> is a Go \<open>map[string]bool\<close> in which every stored value is
  \<open>true\<close>; it is modelled as the set of its keys. Two fields record the agent's effects
  on its environment: \<open>requests\<close> holds the \<open>Messages\<close> of every completion request sent
  upstream, and \<open>handled\<close> holds every call of the handler, each with the keys of
  \<open>pendingToolCalls\<close> at the moment of the call. The mutexes, the logger
  and the cancellation context have no effect on these fields; what a cancelled context
  does to a stream is part of \<^typ>\<open>ChatCompletionStream\<close>.
\<close>

record OpenAIAgent =
  history :: "Message list option"
  currentHandler :: bool
  pendingToolCalls :: "string set"
  requests :: "ChatCompletionMessage list list"
  handled :: "(ResponseItem \<times> string set) list"

text \<open>
  Go leaves the iteration order of \<open>range\<close> over a map unspecified. Each \<open>range\<close> loop over
  a map takes the order the runtime chose as a list of keys; a list \<open>ks\<close> is a possible
  order for a map with the key set \<open>keys\<close> when it lists every key once. \<open>pendingOrder\<close> is the order
  of the loop over \<open>pendingToolCalls\<close>, \<open>readyOrder k\<close> the order of the loop over
  \<open>accumulatingToolCalls\<close> run while the \<open>k\<close>-th received response is processed, and
  \<open>commitOrder\<close> the order of the loop after the stream has ended.
\<close>

record MapIteration =
  pendingOrder :: "string list"
  readyOrder :: "nat \<Rightarrow> string list"
  commitOrder :: "string list"

definition rangeOrder :: "string list \<Rightarrow> string set \<Rightarrow> bool" where
  "rangeOrder ks keys = (distinct ks \<and> set ks = keys)"

section \<open>The conversation history\<close>

text \<open>
  The type \<open>ConversationHistory\<close> and its methods are declared in a file of the package
  that is not at hand. \<open>GetMessagesForContext\<close>, the window of the log that is sent
  upstream, is a parameter \<open>gmc\<close> of the functions that call it.
\<close>

text \<open>
  Modelled from the spec: \<open>ConversationHistory.AddMessage\<close> is missing. The Message Log
  is an ordered, append-only sequence of entries, mutated only through append operations.
\<close>

definition AddMessage :: "Message list \<Rightarrow> Message \<Rightarrow> Message list" where
  "AddMessage h m = h @ [m]"

text \<open>
  Modelled from the spec: \<open>ConversationHistory.AddMessages\<close> is missing. It appends the
  entries in the order given.
\<close>

definition AddMessages :: "Message list \<Rightarrow> Message list \<Rightarrow> Message list" where
  "AddMessages h ms = h @ ms"

section \<open>AddSystemMessage\<close>

text \<open>\<open>strings.Contains\<close>: some suffix of \<open>s\<close> starts with \<open>sub\<close>.\<close>

fun Contains :: "string \<Rightarrow> string \<Rightarrow> bool" where
  "Contains [] sub = (sub = [])"
| "Contains (c # s) sub = (prefix sub (c # s) \<or> Contains s sub)"

definition systemMessage :: "string \<Rightarrow> Message" where
  "systemMessage content =
     \<lparr>Role = ''system'', Content = content, ToolCalls = [], ToolCallID = '''', msg_Name = ''''\<rparr>"

text \<open>The result is the returned error: \<open>None\<close> is \<open>nil\<close>.\<close>

definition AddSystemMessage :: "string \<Rightarrow> OpenAIAgent \<Rightarrow> error option \<times> OpenAIAgent" where
  "AddSystemMessage content a =
     (if Contains content ''DEBUG:'' then (None, a)
      else (case history a of
              Some h \<Rightarrow> (None, a\<lparr>history := Some (AddMessage h (systemMessage content))\<rparr>)
            | None \<Rightarrow> (None, a)))"

section \<open>The handler\<close>

text \<open>
  A call \<open>handler(string(jsonData))\<close>. The items the agent marshals are plain structs of
  strings, for which \<open>json.Marshal\<close> returns no error, so the handler is always called.
  The call is recorded with the keys of \<open>pendingToolCalls\<close> as they are when it happens.
\<close>

definition callHandler :: "ResponseItem \<Rightarrow> OpenAIAgent \<Rightarrow> OpenAIAgent" where
  "callHandler item a = a\<lparr>handled := handled a @ [(item, pendingToolCalls a)]\<rparr>"

definition messageItem :: "string \<Rightarrow> string \<Rightarrow> ResponseItem" where
  "messageItem role content =
     \<lparr>item_Type = ''message'',
      item_Message = Some \<lparr>Role = role, Content = content, ToolCalls = [],
                            ToolCallID = '''', msg_Name = ''''\<rparr>,
      item_FunctionCall = None\<rparr>"

definition functionCallItem :: "string \<Rightarrow> openai_FunctionCall \<Rightarrow> ResponseItem" where
  "functionCallItem callID call =
     \<lparr>item_Type = ''function_call'',
      item_Message = None,
      item_FunctionCall = Some \<lparr>Name = oa_Name call, Arguments = oa_Arguments call,
                                 ID = callID\<rparr>\<rparr>"

definition followupCompleteItem :: ResponseItem where
  "followupCompleteItem =
     \<lparr>item_Type = ''followup_complete'', item_Message = None, item_FunctionCall = None\<rparr>"

section \<open>SendMessage\<close>

text \<open>
  The synthetic result created for a pending call id. Its content is
  \<open>string(mustMarshal(map[string]interface{}{"error": "execution cancelled by user"}))\<close>:
  the JSON object of one key, none of whose characters needs an escape.
\<close>

definition abortedResult :: "string \<Rightarrow> Message" where
  "abortedResult callID =
     \<lparr>Role = ''tool'', Content = ''{\"error\":\"execution cancelled by user\"}'',
      ToolCalls = [], ToolCallID = callID, msg_Name = ''''\<rparr>"

text \<open>
  Cancellation handling, first half: the loop over \<open>pendingToolCalls\<close> in the order \<open>ks\<close>,
  and the clearing of the map.
\<close>

definition drainPending :: "string list \<Rightarrow> OpenAIAgent \<Rightarrow> Message list \<times> OpenAIAgent" where
  "drainPending ks a =
     (if pendingToolCalls a \<noteq> {}
      then (map abortedResult ks, a\<lparr>pendingToolCalls := {}\<rparr>)
      else ([], a))"

text \<open>
  The start of \<open>SendMessage\<close>, up to the end of the cancellation handling: the handler is
  stored, the pending calls are drained, and the aborted results and then the new
  messages are added to the history. The methods are called on \<open>a.history\<close> without a nil
  check; what the missing methods do on a nil receiver is not known, and a call on the
  nil history is modelled as a runtime panic.
\<close>

definition reconcile ::
  "string list \<Rightarrow> Message list \<Rightarrow> OpenAIAgent \<Rightarrow> error + OpenAIAgent" where
  "reconcile ks messages a =
     (let (abortedToolResults, a1) = drainPending ks (a\<lparr>currentHandler := True\<rparr>)
      in case history a1 of
           None \<Rightarrow> Inl NilPointerPanic
         | Some h \<Rightarrow>
             let h1 = (if abortedToolResults \<noteq> [] then AddMessages h abortedToolResults else h);
                 h2 = (if messages \<noteq> [] then AddMessages h1 messages else h1)
             in Inr (a1\<lparr>history := Some h2\<rparr>))"

text \<open>The conversion of the history to the client library's messages.\<close>

definition convertToolCall :: "ToolCall \<Rightarrow> openai_ToolCall" where
  "convertToolCall tc =
     \<lparr>oa_ID = tc_ID tc, oa_Type = tc_Type tc,
      oa_Function = \<lparr>oa_Name = Name (tc_Function tc),
                      oa_Arguments = Arguments (tc_Function tc)\<rparr>\<rparr>"

definition toAPIMessage :: "Message \<Rightarrow> ChatCompletionMessage" where
  "toAPIMessage msg =
     (let apiMsg = \<lparr>cm_Role = Role msg, cm_Content = Content msg, cm_ToolCalls = [],
                    cm_ToolCallID = ''''\<rparr>;
          apiMsg1 = (if Role msg = ''assistant'' \<and> ToolCalls msg \<noteq> []
                     then apiMsg\<lparr>cm_ToolCalls := map convertToolCall (ToolCalls msg),
                                 cm_Content := ''''\<rparr>
                     else apiMsg);
          apiMsg2 = (if Role msg = ''tool''
                     then apiMsg1\<lparr>cm_ToolCallID := ToolCallID msg\<rparr>
                     else apiMsg1)
      in apiMsg2)"

definition convertHistory :: "Message list \<Rightarrow> ChatCompletionMessage list" where
  "convertHistory historyMessages = map toAPIMessage historyMessages"

text \<open>
  The local variables of the receive loop. \<open>accumulatingToolCalls\<close> is a Go map from call
  id to the call assembled so far. It is modelled as an association list with one pair
  per key, read with \<^const>\<open>map_of\<close> and written with \<^const>\<open>AList.update\<close>, which replaces the
  value of a key in place and puts a new key last. The list therefore keeps the keys in
  the order of their first insertion, which the Go map does not: the model reads the list
  only through \<^const>\<open>map_of\<close>, and a \<open>range\<close> loop takes its order as a parameter.
\<close>

record SendMessageLocals =
  accumulatingToolCalls :: "(string \<times> openai_FunctionCall) list"
  currentContent :: string
  currentRole :: string
  streamEndedWithToolCall :: bool
  processingToolCall :: bool

definition initialLocals :: SendMessageLocals where
  "initialLocals =
     \<lparr>accumulatingToolCalls = [], currentContent = '''',
      currentRole = ''assistant'', streamEndedWithToolCall = False,
      processingToolCall = False\<rparr>"

text \<open>The loop over the tool-call chunks of one delta.\<close>

fun accumulate ::
  "openai_ToolCall list \<Rightarrow> (string \<times> openai_FunctionCall) list \<Rightarrow>
   (string \<times> openai_FunctionCall) list" where
  "accumulate [] acc = acc"
| "accumulate (toolCallChunk # chunks) acc =
     (if oa_ID toolCallChunk = '''' then accumulate chunks acc
      else
        let acc1 = (if map_of acc (oa_ID toolCallChunk) = None
                    then AList.update (oa_ID toolCallChunk)
                           \<lparr>oa_Name = oa_Name (oa_Function toolCallChunk),
                            oa_Arguments = ''''\<rparr> acc
                    else acc);
            acc2 = (if oa_Arguments (oa_Function toolCallChunk) \<noteq> ''''
                    then (case map_of acc1 (oa_ID toolCallChunk) of
                            None \<Rightarrow> acc1
                          | Some call \<Rightarrow>
                              AList.update (oa_ID toolCallChunk)
                                (call\<lparr>oa_Arguments := oa_Arguments call @
                                        oa_Arguments (oa_Function toolCallChunk)\<rparr>) acc1)
                    else acc1)
        in accumulate chunks acc2)"

text \<open>
  The loop run at a \<open>tool_calls\<close> finish reason, over \<open>accumulatingToolCalls\<close> in the order
  \<open>ks\<close>: each id is entered into \<open>pendingToolCalls\<close> and then handed to the handler. A key
  of \<open>ks\<close> that the map does not hold is not visited.
\<close>

fun sendFunctionCalls ::
  "string list \<Rightarrow> (string \<times> openai_FunctionCall) list \<Rightarrow> OpenAIAgent \<Rightarrow>
   OpenAIAgent" where
  "sendFunctionCalls [] acc a = a"
| "sendFunctionCalls (callID # ks) acc a =
     (case map_of acc callID of
        None \<Rightarrow> sendFunctionCalls ks acc a
      | Some completedCall \<Rightarrow>
          let a1 = a\<lparr>pendingToolCalls := insert callID (pendingToolCalls a)\<rparr>;
              a2 = callHandler (functionCallItem callID completedCall) a1
          in sendFunctionCalls ks acc a2)"

definition hasToolCalls :: "ChatCompletionStreamChoice \<Rightarrow> bool" where
  "hasToolCalls choice =
     (case delta_ToolCalls (Delta choice) of None \<Rightarrow> False | Some tcs \<Rightarrow> tcs \<noteq> [])"

text \<open>The body of the receive loop for \<open>response.Choices[0]\<close>.\<close>

definition processChoice ::
  "string list \<Rightarrow> ChatCompletionStreamChoice \<Rightarrow> SendMessageLocals \<times> OpenAIAgent \<Rightarrow>
   SendMessageLocals \<times> OpenAIAgent" where
  "processChoice ks choice s =
     (let (l, a) = s;
          l1 = (if delta_Role (Delta choice) \<noteq> ''''
                then l\<lparr>currentRole := delta_Role (Delta choice)\<rparr> else l);
          l2 = (if hasToolCalls choice \<and> \<not> processingToolCall l1
                then l1\<lparr>processingToolCall := True\<rparr> else l1);
          (l3, a3) =
            (if delta_Content (Delta choice) \<noteq> '''' \<and> \<not> processingToolCall l2
             then
               let l' = l2\<lparr>currentContent := currentContent l2 @ delta_Content (Delta choice)\<rparr>
               in (l', callHandler (messageItem (currentRole l') (currentContent l')) a)
             else (l2, a));
          l4 = (case delta_ToolCalls (Delta choice) of
                  None \<Rightarrow> l3
                | Some tcs \<Rightarrow>
                    if processingToolCall l3
                    then l3\<lparr>streamEndedWithToolCall := True,
                            accumulatingToolCalls := accumulate tcs (accumulatingToolCalls l3)\<rparr>
                    else l3)
      in if FinishReason choice \<noteq> '''' \<and> FinishReason choice = ''tool_calls''
         then (l4\<lparr>streamEndedWithToolCall := True\<rparr>,
               sendFunctionCalls ks (accumulatingToolCalls l4) a3)
         else (l4, a3))"

definition processResponse ::
  "string list \<Rightarrow> ChatCompletionStreamResponse \<Rightarrow> SendMessageLocals \<times> OpenAIAgent \<Rightarrow>
   SendMessageLocals \<times> OpenAIAgent" where
  "processResponse ks response s =
     (case response of [] \<Rightarrow> s | choice # _ \<Rightarrow> processChoice ks choice s)"

text \<open>
  The receive loop over the responses the stream yields before it ends; \<open>n\<close> counts the
  responses received so far.
\<close>

fun recvLoop ::
  "(nat \<Rightarrow> string list) \<Rightarrow> nat \<Rightarrow> ChatCompletionStreamResponse list \<Rightarrow>
   SendMessageLocals \<times> OpenAIAgent \<Rightarrow> SendMessageLocals \<times> OpenAIAgent" where
  "recvLoop order n [] s = s"
| "recvLoop order n (response # rs) s =
     recvLoop order (Suc n) rs (processResponse (order n) response s)"

text \<open>The tool calls of the final assistant message, from the map in the order \<open>ks\<close>.\<close>

fun assistantToolCalls ::
  "string list \<Rightarrow> (string \<times> openai_FunctionCall) list \<Rightarrow> ToolCall list" where
  "assistantToolCalls [] acc = []"
| "assistantToolCalls (callID # ks) acc =
     (case map_of acc callID of
        None \<Rightarrow> assistantToolCalls ks acc
      | Some completedCall \<Rightarrow>
          \<lparr>tc_ID = callID, tc_Type = ''function'',
           tc_Function = \<lparr>Name = oa_Name completedCall,
                           Arguments = (if oa_Arguments completedCall = '''' then ''{}''
                                        else oa_Arguments completedCall),
                           ID = ''''\<rparr>\<rparr> # assistantToolCalls ks acc)"

text \<open>The addition of the final assistant message to the history, after the loop.\<close>

definition commitTurn :: "string list \<Rightarrow> SendMessageLocals \<Rightarrow> OpenAIAgent \<Rightarrow> OpenAIAgent" where
  "commitTurn ks l a =
     (case history a of
        None \<Rightarrow> a
      | Some h \<Rightarrow>
          if streamEndedWithToolCall l then
            let assistantMsgToolCalls = assistantToolCalls ks (accumulatingToolCalls l)
            in if assistantMsgToolCalls \<noteq> []
               then a\<lparr>history := Some (AddMessage h
                        \<lparr>Role = ''assistant'', Content = '''',
                         ToolCalls = assistantMsgToolCalls, ToolCallID = '''',
                         msg_Name = ''''\<rparr>)\<rparr>
               else a
          else if currentContent l \<noteq> ''''
          then a\<lparr>history := Some (AddMessage h
                   \<lparr>Role = currentRole l, Content = currentContent l, ToolCalls = [],
                    ToolCallID = '''', msg_Name = ''''\<rparr>)\<rparr>
          else a)"

text \<open>
  \<open>SendMessage\<close>. The result is the returned pair: \<open>Inr b\<close> is \<open>(b, nil)\<close>, \<open>Inl e\<close> is
  \<open>(false, e)\<close>. The handler passed in is taken to be non-nil.
\<close>

definition SendMessage ::
  "MapIteration \<Rightarrow> (Message list \<Rightarrow> Message list) \<Rightarrow> Message list \<Rightarrow>
   ChatCompletionStream \<Rightarrow> OpenAIAgent \<Rightarrow> (error + bool) \<times> OpenAIAgent" where
  "SendMessage it gmc messages stream a =
     (case reconcile (pendingOrder it) messages a of
        Inl e \<Rightarrow> (Inl e, a)
      | Inr a2 \<Rightarrow>
          let historyMessages = gmc (the (history a2));
              openAIMessages = convertHistory historyMessages;
              a3 = a2\<lparr>requests := requests a2 @ [openAIMessages]\<rparr>
          in (case stream of
                CreateError \<Rightarrow> (Inl ErrCreateStream, a3)
              | Stream rs fin \<Rightarrow>
                  (let (l, a4) = recvLoop (readyOrder it) 0 rs (initialLocals, a3)
                   in (case fin of
                         RecvError \<Rightarrow> (Inl ErrRecv, a4)
                       | EOF \<Rightarrow>
                           (Inr (streamEndedWithToolCall l),
                            commitTurn (commitOrder it) l a4)))))"

section \<open>SendFunctionResult\<close>

text \<open>
  The content of the tool result message, \<open>string(json.RawMessage(mustMarshal(content)))\<close>
  for a map of one key. \<open>jsonString\<close> stands for the encoding of a Go string as a JSON
  string by \<open>encoding/json\<close>, which belongs to the standard library.
\<close>

definition toolResultContent :: "(string \<Rightarrow> string) \<Rightarrow> string \<Rightarrow> bool \<Rightarrow> string" where
  "toolResultContent jsonString output success =
     (if success then ''{\"output\":'' @ jsonString output @ ''}''
      else ''{\"error\":'' @ jsonString output @ ''}'')"

text \<open>
  One round of the loop that filters the history for the follow-up request.
  \<open>toolCallIDsExpected\<close> is a \<open>map[string]bool\<close> holding only \<open>true\<close>, modelled as the set
  of its keys. The result is the message to append, if any, and the new set.
\<close>

definition filterStep ::
  "Message \<Rightarrow> string set \<Rightarrow> ChatCompletionMessage option \<times> string set" where
  "filterStep msg toolCallIDsExpected =
     (let apiMsg = \<lparr>cm_Role = Role msg, cm_Content = Content msg, cm_ToolCalls = [],
                    cm_ToolCallID = ''''\<rparr>;
          (apiMsg1, expected1, addMsg) =
            (if Role msg = ''assistant'' then
               (if ToolCalls msg \<noteq> []
                then (apiMsg\<lparr>cm_ToolCalls := map convertToolCall (ToolCalls msg),
                             cm_Content := ''''\<rparr>,
                      toolCallIDsExpected \<union> set (map tc_ID (ToolCalls msg)), True)
                else if toolCallIDsExpected \<noteq> {}
                then (apiMsg, toolCallIDsExpected, False)
                else (apiMsg, toolCallIDsExpected, True))
             else (apiMsg, toolCallIDsExpected, True));
          (apiMsg2, expected2) =
            (if Role msg = ''tool''
             then (apiMsg1\<lparr>cm_ToolCallID := ToolCallID msg\<rparr>,
                   (if ToolCallID msg \<in> expected1 then expected1 - {ToolCallID msg}
                    else expected1))
             else (apiMsg1, expected1))
      in ((if addMsg then Some apiMsg2 else None), expected2))"

fun filterHistory :: "Message list \<Rightarrow> string set \<Rightarrow> ChatCompletionMessage list" where
  "filterHistory [] toolCallIDsExpected = []"
| "filterHistory (msg # rest) toolCallIDsExpected =
     (case filterStep msg toolCallIDsExpected of
        (None, expected') \<Rightarrow> filterHistory rest expected'
      | (Some apiMsg, expected') \<Rightarrow> apiMsg # filterHistory rest expected')"

text \<open>The local variables of the follow-up receive loop.\<close>

record FollowupLocals =
  fu_currentContent :: string
  fu_currentRole :: string
  currentFunctionCall :: "openai_FunctionCall option"
  currentFunctionCallID :: string

definition initialFollowup :: FollowupLocals where
  "initialFollowup =
     \<lparr>fu_currentContent = '''', fu_currentRole = ''assistant'',
      currentFunctionCall = None, currentFunctionCallID = ''''\<rparr>"

text \<open>The body of the follow-up receive loop for \<open>response.Choices[0]\<close>.\<close>

definition followupChoice ::
  "ChatCompletionStreamChoice \<Rightarrow> FollowupLocals \<times> OpenAIAgent \<Rightarrow>
   FollowupLocals \<times> OpenAIAgent" where
  "followupChoice choice s =
     (let (l, a) = s;
          (l1, a1) =
            (if delta_Content (Delta choice) \<noteq> ''''
             then
               let l' = l\<lparr>fu_currentContent :=
                            fu_currentContent l @ delta_Content (Delta choice)\<rparr>
               in (l', callHandler (messageItem (fu_currentRole l') (fu_currentContent l')) a)
             else (l, a));
          l2 = (case delta_ToolCalls (Delta choice) of
                  None \<Rightarrow> l1
                | Some [] \<Rightarrow> l1
                | Some (toolCall # _) \<Rightarrow>
                    (case currentFunctionCall l1 of
                       None \<Rightarrow>
                         l1\<lparr>currentFunctionCall :=
                              Some \<lparr>oa_Name = oa_Name (oa_Function toolCall),
                                    oa_Arguments = oa_Arguments (oa_Function toolCall)\<rparr>,
                            currentFunctionCallID := oa_ID toolCall\<rparr>
                     | Some call \<Rightarrow>
                         l1\<lparr>currentFunctionCall :=
                              Some (call\<lparr>oa_Arguments := oa_Arguments call @
                                           oa_Arguments (oa_Function toolCall)\<rparr>)\<rparr>))
      in if FinishReason choice = ''tool_calls''
         then (case currentFunctionCall l2 of
                 None \<Rightarrow> (l2, a1)
               | Some call \<Rightarrow>
                   (let nestedToolCalls =
                          [\<lparr>tc_ID = currentFunctionCallID l2, tc_Type = ''function'',
                            tc_Function = \<lparr>Name = oa_Name call,
                                            Arguments = oa_Arguments call, ID = ''''\<rparr>\<rparr>];
                        a2 = (case history a1 of
                                None \<Rightarrow> a1
                              | Some h \<Rightarrow>
                                  a1\<lparr>history := Some (AddMessage h
                                       \<lparr>Role = ''assistant'', Content = '''',
                                        ToolCalls = nestedToolCalls, ToolCallID = '''',
                                        msg_Name = ''''\<rparr>)\<rparr>);
                        a3 = callHandler (functionCallItem (currentFunctionCallID l2) call) a2
                    in (l2\<lparr>currentFunctionCall := None, currentFunctionCallID := ''''\<rparr>,
                        a3)))
         else (l2, a1))"

fun followupLoop ::
  "ChatCompletionStreamResponse list \<Rightarrow> FollowupLocals \<times> OpenAIAgent \<Rightarrow>
   FollowupLocals \<times> OpenAIAgent" where
  "followupLoop [] s = s"
| "followupLoop (response # rs) s =
     followupLoop rs (case response of [] \<Rightarrow> s | choice # _ \<Rightarrow> followupChoice choice s)"

text \<open>What follows the loop: the final assistant message and the completion signal.\<close>

definition finishFollowup :: "FollowupLocals \<Rightarrow> OpenAIAgent \<Rightarrow> OpenAIAgent" where
  "finishFollowup l a =
     (let a1 = (if fu_currentContent l \<noteq> ''''
                then (case history a of
                        None \<Rightarrow> a
                      | Some h \<Rightarrow>
                          a\<lparr>history := Some (AddMessage h
                               \<lparr>Role = fu_currentRole l, Content = fu_currentContent l,
                                ToolCalls = [], ToolCallID = '''', msg_Name = ''''\<rparr>)\<rparr>)
                else a)
      in if currentFunctionCall l = None then callHandler followupCompleteItem a1 else a1)"

text \<open>\<open>SendFunctionResult\<close>. The result is the returned error: \<open>None\<close> is \<open>nil\<close>.\<close>

definition SendFunctionResult ::
  "(string \<Rightarrow> string) \<Rightarrow> (Message list \<Rightarrow> Message list) \<Rightarrow> string \<Rightarrow> string \<Rightarrow> string \<Rightarrow>
   bool \<Rightarrow> ChatCompletionStream \<Rightarrow> OpenAIAgent \<Rightarrow> error option \<times> OpenAIAgent" where
  "SendFunctionResult jsonString gmc callID functionName output success stream a =
     (let handler = currentHandler a;
          a1 = (if callID \<in> pendingToolCalls a
                then a\<lparr>pendingToolCalls := pendingToolCalls a - {callID}\<rparr> else a);
          toolResultMessage =
            \<lparr>Role = ''tool'', Content = toolResultContent jsonString output success,
             ToolCalls = [], ToolCallID = callID, msg_Name = functionName\<rparr>
      in (case history a1 of
            None \<Rightarrow> (Some ErrHistoryNil, a1)
          | Some h \<Rightarrow>
              (let a2 = a1\<lparr>history := Some (AddMessage h toolResultMessage)\<rparr>
               in if \<not> handler then (None, a2)
                  else
                    (let historyMessages = gmc (AddMessage h toolResultMessage);
                         openAIMessages = filterHistory historyMessages {};
                         a3 = a2\<lparr>requests := requests a2 @ [openAIMessages]\<rparr>
                     in (case stream of
                           CreateError \<Rightarrow> (Some ErrCreateStream, a3)
                         | Stream rs fin \<Rightarrow>
                             (let (l, a4) = followupLoop rs (initialFollowup, a3)
                              in (case fin of
                                    RecvError \<Rightarrow> (Some ErrRecv, a4)
                                  | EOF \<Rightarrow> (None, finishFollowup l a4))))))))"

section \<open>Notions the properties are stated with\<close>

text \<open>
  In an outbound message sequence, an assistant entry issues tool calls when its
  \<open>ToolCalls\<close> is non-empty and is a text entry otherwise; a tool entry is the result of
  the call named by its \<open>ToolCallID\<close>.
\<close>

definition issuesToolCalls :: "ChatCompletionMessage \<Rightarrow> bool" where
  "issuesToolCalls m = (cm_Role m = ''assistant'' \<and> cm_ToolCalls m \<noteq> [])"

definition assistantText :: "ChatCompletionMessage \<Rightarrow> bool" where
  "assistantText m = (cm_Role m = ''assistant'' \<and> cm_ToolCalls m = [])"

definition resultIDs :: "ChatCompletionMessage list \<Rightarrow> string set" where
  "resultIDs ms = set (map cm_ToolCallID (filter (\<lambda>m. cm_Role m = ''tool'') ms))"

text \<open>
  The sequence \<open>out\<close> holds an assistant text entry after a tool-call-issuing entry \<open>a\<close>
  and before the result of one of the calls of \<open>a\<close>: no result for that call stands
  between the two.
\<close>

definition textBeforeResults :: "ChatCompletionMessage list \<Rightarrow> bool" where
  "textBeforeResults out =
     (\<exists>pre a mid t post.
        out = pre @ a # mid @ t # post \<and> issuesToolCalls a \<and> assistantText t \<and>
        (\<exists>c \<in> set (cm_ToolCalls a). oa_ID c \<notin> resultIDs mid))"

text \<open>The same, as a function that walks the sequence.\<close>

fun textBeforeResultOf :: "string \<Rightarrow> ChatCompletionMessage list \<Rightarrow> bool" where
  "textBeforeResultOf callID [] = False"
| "textBeforeResultOf callID (m # ms) =
     (if assistantText m then True
      else if cm_Role m = ''tool'' \<and> cm_ToolCallID m = callID then False
      else textBeforeResultOf callID ms)"

fun violatesOrdering :: "ChatCompletionMessage list \<Rightarrow> bool" where
  "violatesOrdering [] = False"
| "violatesOrdering (m # ms) =
     ((issuesToolCalls m \<and> (\<exists>c \<in> set (cm_ToolCalls m). textBeforeResultOf (oa_ID c) ms))
      \<or> violatesOrdering ms)"

text \<open>The handler calls by kind: the contents of the \<open>message\<close> items, the ids of the
  \<open>function_call\<close> items.\<close>

definition messageItems :: "(ResponseItem \<times> string set) list \<Rightarrow> ResponseItem list" where
  "messageItems calls = filter (\<lambda>i. item_Type i = ''message'') (map fst calls)"

definition messageContents :: "(ResponseItem \<times> string set) list \<Rightarrow> string list" where
  "messageContents calls =
     map (\<lambda>i. case item_Message i of None \<Rightarrow> '''' | Some m \<Rightarrow> Content m) (messageItems calls)"

definition functionCallItems :: "(ResponseItem \<times> string set) list \<Rightarrow> ResponseItem list" where
  "functionCallItems calls = filter (\<lambda>i. item_Type i = ''function_call'') (map fst calls)"

definition functionCallIDs :: "(ResponseItem \<times> string set) list \<Rightarrow> string list" where
  "functionCallIDs calls =
     map (\<lambda>i. case item_FunctionCall i of None \<Rightarrow> '''' | Some f \<Rightarrow> ID f)
       (functionCallItems calls)"

text \<open>
  A handler call is made while its call is pending when the id of the function call it
  carries is a key of \<open>pendingToolCalls\<close> at the moment of the call.
\<close>

definition deliveredWhilePending :: "ResponseItem \<times> string set \<Rightarrow> bool" where
  "deliveredWhilePending call =
     (case item_FunctionCall (fst call) of None \<Rightarrow> True | Some f \<Rightarrow> ID f \<in> snd call)"

text \<open>
  The ids of the tool-call chunks of a stream that carry an id, in the order of the
  stream, and the order in which ids are first seen in such a sequence.
\<close>

definition chunkIDs :: "ChatCompletionStreamResponse list \<Rightarrow> string list" where
  "chunkIDs rs =
     filter (\<lambda>i. i \<noteq> '''')
       (concat (map (\<lambda>r. case r of
                            [] \<Rightarrow> []
                          | choice # _ \<Rightarrow>
                              (case delta_ToolCalls (Delta choice) of
                                 None \<Rightarrow> []
                               | Some tcs \<Rightarrow> map oa_ID tcs)) rs))"

fun firstSeen :: "string list \<Rightarrow> string list \<Rightarrow> string list" where
  "firstSeen seen [] = seen"
| "firstSeen seen (i # ids) = firstSeen (if i \<in> set seen then seen else seen @ [i]) ids"

text \<open>The text fragments of a stream: the non-empty contents of its deltas, in order.\<close>

definition fragments :: "ChatCompletionStreamResponse list \<Rightarrow> string list" where
  "fragments rs =
     filter (\<lambda>f. f \<noteq> '''')
       (concat (map (\<lambda>r. case r of [] \<Rightarrow> [] | choice # _ \<Rightarrow> [delta_Content (Delta choice)]) rs))"

definition noToolData :: "ChatCompletionStreamResponse \<Rightarrow> bool" where
  "noToolData r = (case r of [] \<Rightarrow> True | choice # _ \<Rightarrow> \<not> hasToolCalls choice)"

definition toolData :: "ChatCompletionStreamResponse \<Rightarrow> bool" where
  "toolData r = (case r of [] \<Rightarrow> False | choice # _ \<Rightarrow> hasToolCalls choice)"

definition finishMarker :: "ChatCompletionStreamResponse \<Rightarrow> string" where
  "finishMarker r = (case r of [] \<Rightarrow> '''' | choice # _ \<Rightarrow> FinishReason choice)"

text \<open>
  What a stream says about the turn it carries, read off the responses alone: the
  tool-call chunks of its deltas in order, the role of the reply (the last non-empty
  \<open>Delta.Role\<close>, \<open>assistant\<close> when there is none), and whether the turn counts as a
  tool-call turn (some delta carries tool-call data or the finish reason \<open>tool_calls\<close>).
\<close>

definition streamToolCalls :: "ChatCompletionStreamResponse list \<Rightarrow> openai_ToolCall list" where
  "streamToolCalls rs =
     concat (map (\<lambda>r. case r of
                          [] \<Rightarrow> []
                        | choice # _ \<Rightarrow>
                            (case delta_ToolCalls (Delta choice) of
                               None \<Rightarrow> []
                             | Some tcs \<Rightarrow> tcs)) rs)"

fun streamRole :: "string \<Rightarrow> ChatCompletionStreamResponse list \<Rightarrow> string" where
  "streamRole role [] = role"
| "streamRole role (r # rs) =
     streamRole (case r of
                   [] \<Rightarrow> role
                 | choice # _ \<Rightarrow>
                     (if delta_Role (Delta choice) \<noteq> '''' then delta_Role (Delta choice)
                      else role)) rs"

definition toolCallTurn :: "ChatCompletionStreamResponse list \<Rightarrow> bool" where
  "toolCallTurn rs = (\<exists>r \<in> set rs. toolData r \<or> finishMarker r = ''tool_calls'')"

text \<open>
  The entry that a turn ending in \<open>io.EOF\<close> leaves in the log, as a list of no or one
  message: for a tool-call turn the assistant entry issuing the accumulated calls (in
  the order \<open>ks\<close> of the loop that builds it; nothing when no id was accumulated), for
  any other turn the assistant entry with the concatenated text fragments (nothing when
  there are none).
\<close>

definition turnEntry :: "string list \<Rightarrow> ChatCompletionStreamResponse list \<Rightarrow> Message list" where
  "turnEntry ks rs =
     (if toolCallTurn rs then
        (let calls = assistantToolCalls ks (accumulate (streamToolCalls rs) [])
         in if calls \<noteq> []
            then [\<lparr>Role = ''assistant'', Content = '''', ToolCalls = calls,
                   ToolCallID = '''', msg_Name = ''''\<rparr>]
            else [])
      else if concat (fragments rs) \<noteq> ''''
      then [\<lparr>Role = streamRole ''assistant'' rs, Content = concat (fragments rs),
             ToolCalls = [], ToolCallID = '''', msg_Name = ''''\<rparr>]
      else [])"

section \<open>Example inputs\<close>

text \<open>
  A fresh agent as \<open>NewOpenAIAgent\<close> builds it (with an empty log), a user message, and
  stream responses carrying a text fragment, a tool-call fragment or a finish reason.
  \<open>quoted\<close> is the JSON encoding of a string that needs no escape.
\<close>

definition newAgent :: OpenAIAgent where
  "newAgent =
     \<lparr>history = Some [], currentHandler = False, pendingToolCalls = {}, requests = [],
      handled = []\<rparr>"

definition userMessage :: "string \<Rightarrow> Message" where
  "userMessage content =
     \<lparr>Role = ''user'', Content = content, ToolCalls = [], ToolCallID = '''', msg_Name = ''''\<rparr>"

definition textChunk :: "string \<Rightarrow> ChatCompletionStreamResponse" where
  "textChunk content =
     [\<lparr>Delta = \<lparr>delta_Role = '''', delta_Content = content, delta_ToolCalls = None\<rparr>,
       FinishReason = ''''\<rparr>]"

definition toolChunk :: "string \<Rightarrow> string \<Rightarrow> string \<Rightarrow> ChatCompletionStreamResponse" where
  "toolChunk callID name args =
     [\<lparr>Delta = \<lparr>delta_Role = '''', delta_Content = '''',
                 delta_ToolCalls = Some [\<lparr>oa_ID = callID, oa_Type = ''function'',
                   oa_Function = \<lparr>oa_Name = name, oa_Arguments = args\<rparr>\<rparr>]\<rparr>,
       FinishReason = ''''\<rparr>]"

definition finishChunk :: "string \<Rightarrow> ChatCompletionStreamResponse" where
  "finishChunk reason =
     [\<lparr>Delta = \<lparr>delta_Role = '''', delta_Content = '''', delta_ToolCalls = None\<rparr>,
       FinishReason = reason\<rparr>]"

definition iterate :: "string list \<Rightarrow> MapIteration" where
  "iterate ks = \<lparr>pendingOrder = ks, readyOrder = (\<lambda>k. ks), commitOrder = ks\<rparr>"

definition quoted :: "string \<Rightarrow> string" where
  "quoted s = ''\"'' @ s @ ''\"''"

text \<open>
  An agent left by a cancelled interaction: the assistant has issued the call \<open>c1\<close>, which
  is still pending.
\<close>

definition abandonedAgent :: OpenAIAgent where
  "abandonedAgent =
     \<lparr>history = Some [userMessage ''ls'',
        \<lparr>Role = ''assistant'', Content = '''',
         ToolCalls = [\<lparr>tc_ID = ''c1'', tc_Type = ''function'',
           tc_Function = \<lparr>Name = ''list_directory'', Arguments = ''{}'', ID = ''''\<rparr>\<rparr>],
         ToolCallID = '''', msg_Name = ''''\<rparr>],
      currentHandler = True, pendingToolCalls = {''c1''}, requests = [], handled = []\<rparr>"

text \<open>
  A session: the user asks, the assistant issues the call \<open>c1\<close>, the result of \<open>c1\<close> is
  sent, and the follow-up turn streams a text fragment and then issues the call \<open>c2\<close>
  (\<open>afterFollowup\<close>); the result of \<open>c2\<close> is sent and the next follow-up turn is plain
  text (\<open>afterSecondResult\<close>).
\<close>

definition afterFirstTurn :: OpenAIAgent where
  "afterFirstTurn =
     snd (SendMessage (iterate [''c1'']) id [userMessage ''ls'']
       (Stream [toolChunk ''c1'' ''list_directory'' ''{}'', finishChunk ''tool_calls''] EOF)
       newAgent)"

definition afterFollowup :: OpenAIAgent where
  "afterFollowup =
     snd (SendFunctionResult quoted id ''c1'' ''list_directory'' ''a.txt'' True
       (Stream [textChunk ''Let me check'', toolChunk ''c2'' ''read_file'' ''{}'',
                finishChunk ''tool_calls''] EOF)
       afterFirstTurn)"

definition afterSecondResult :: OpenAIAgent where
  "afterSecondResult =
     snd (SendFunctionResult quoted id ''c2'' ''read_file'' ''data'' True
       (Stream [textChunk ''done'', finishChunk ''stop''] EOF)
       afterFollowup)"

section \<open>Properties\<close>

lemma Contains_iff: "Contains s sub \<longleftrightarrow> (\<exists>pre post. s = pre @ sub @ post)"
proof -
  have "Contains s sub \<longleftrightarrow> sublist sub s"
    by (induction s) (auto simp: sublist_Cons_right)
  then show ?thesis
    by (simp add: sublist_def)
qed

text \<open>
  C10. A call of \<open>AddSystemMessage\<close> whose content contains the substring \<open>DEBUG:\<close>
  (\<^const>\<open>Contains\<close>, which \<open>Contains_iff\<close> shows to be the substring test) leaves
  the agent, and so the conversation history, unchanged and returns nil. For every other
  content the call returns nil and appends to the history of an agent that has one (as
  every agent built by \<open>NewOpenAIAgent\<close> does) a system-role entry with exactly that
  content.
\<close>

theorem AddSystemMessage_spec:
  "(Contains content ''DEBUG:'' \<longrightarrow> AddSystemMessage content a = (None, a)) \<and>
   (\<not> Contains content ''DEBUG:'' \<and> history a = Some h \<longrightarrow>
      AddSystemMessage content a =
        (None, a\<lparr>history := Some (h @ [systemMessage content])\<rparr>) \<and>
      Role (systemMessage content) = ''system'' \<and>
      Content (systemMessage content) = content)"
  by (simp add: AddSystemMessage_def AddMessage_def systemMessage_def)

theorem AddSystemMessage_spec_witness:
  "Contains ''a DEBUG: b'' ''DEBUG:'' \<and>
   AddSystemMessage ''a DEBUG: b'' \<lparr>history = Some [], currentHandler = False,
      pendingToolCalls = {}, requests = [], handled = []\<rparr> =
     (None, \<lparr>history = Some [], currentHandler = False,
      pendingToolCalls = {}, requests = [], handled = []\<rparr>) \<and>
   \<not> Contains ''hello'' ''DEBUG:'' \<and>
   AddSystemMessage ''hello'' \<lparr>history = Some [], currentHandler = False,
      pendingToolCalls = {}, requests = [], handled = []\<rparr> =
     (None, \<lparr>history = Some [systemMessage ''hello''], currentHandler = False,
      pendingToolCalls = {}, requests = [], handled = []\<rparr>)"
proof -
  have d: "Contains ''a DEBUG: b'' ''DEBUG:''"
    by simp
  have n: "\<not> Contains ''hello'' ''DEBUG:''"
    by simp
  show ?thesis
    using d n
      AddSystemMessage_spec [of "''a DEBUG: b''" "\<lparr>history = Some [], currentHandler = False,
        pendingToolCalls = {}, requests = [], handled = []\<rparr>" "[]"]
      AddSystemMessage_spec [of "''hello''" "\<lparr>history = Some [], currentHandler = False,
        pendingToolCalls = {}, requests = [], handled = []\<rparr>" "[]"]
    by simp
qed

subsection \<open>Evaluation\<close>

lemmas example_defs = newAgent_def userMessage_def textChunk_def toolChunk_def finishChunk_def
  iterate_def quoted_def

lemmas model_defs = SendMessage_def reconcile_def drainPending_def AddMessages_def AddMessage_def
  convertHistory_def toAPIMessage_def convertToolCall_def initialLocals_def processResponse_def
  processChoice_def hasToolCalls_def callHandler_def messageItem_def functionCallItem_def
  commitTurn_def abortedResult_def SendFunctionResult_def toolResultContent_def filterStep_def
  initialFollowup_def followupChoice_def finishFollowup_def followupCompleteItem_def

subsection \<open>What the receive loop of SendMessage changes\<close>

lemma history_callHandler [simp]: "history (callHandler i a) = history a"
  by (simp add: callHandler_def)

lemma pending_callHandler [simp]: "pendingToolCalls (callHandler i a) = pendingToolCalls a"
  by (simp add: callHandler_def)

lemma requests_callHandler [simp]: "requests (callHandler i a) = requests a"
  by (simp add: callHandler_def)

lemma handled_callHandler [simp]:
  "handled (callHandler i a) = handled a @ [(i, pendingToolCalls a)]"
  by (simp add: callHandler_def)

lemma history_sendFunctionCalls [simp]: "history (sendFunctionCalls ks acc a) = history a"
  by (induction ks arbitrary: a) (auto split: option.splits simp: Let_def)

lemma messageItems_append [simp]:
  "messageItems (xs @ ys) = messageItems xs @ messageItems ys"
  by (simp add: messageItems_def)

lemma messageContents_append [simp]:
  "messageContents (xs @ ys) = messageContents xs @ messageContents ys"
  by (simp add: messageContents_def)

lemma functionCallIDs_append [simp]:
  "functionCallIDs (xs @ ys) = functionCallIDs xs @ functionCallIDs ys"
  by (simp add: functionCallIDs_def functionCallItems_def)

lemma messageItems_sendFunctionCalls [simp]:
  "messageItems (handled (sendFunctionCalls ks acc a)) = messageItems (handled a)"
  by (induction ks arbitrary: a)
     (auto split: option.splits simp: Let_def messageItems_def functionCallItem_def)

lemma functionCallIDs_sendFunctionCalls:
  "functionCallIDs (handled (sendFunctionCalls ks acc a)) =
     functionCallIDs (handled a) @ filter (\<lambda>k. map_of acc k \<noteq> None) ks"
  by (induction ks arbitrary: a)
     (auto split: option.splits simp: Let_def functionCallIDs_def functionCallItems_def functionCallItem_def)

lemma history_processChoice [simp]:
  "history (snd (processChoice ks c s)) = history (snd s)"
  by (cases s) (simp add: processChoice_def Let_def split: option.splits prod.splits)

lemma history_processResponse [simp]:
  "history (snd (processResponse ks r s)) = history (snd s)"
  by (simp add: processResponse_def split: list.splits)

lemma history_recvLoop [simp]:
  "history (snd (recvLoop ord n rs s)) = history (snd s)"
  by (induction rs arbitrary: n s) auto

lemma requests_sendFunctionCalls [simp]: "requests (sendFunctionCalls ks acc a) = requests a"
  by (induction ks arbitrary: a) (auto split: option.splits simp: Let_def)

lemma requests_processChoice [simp]:
  "requests (snd (processChoice ks c s)) = requests (snd s)"
  by (cases s) (simp add: processChoice_def Let_def split: option.splits prod.splits)

lemma requests_processResponse [simp]:
  "requests (snd (processResponse ks r s)) = requests (snd s)"
  by (simp add: processResponse_def split: list.splits)

lemma requests_recvLoop [simp]:
  "requests (snd (recvLoop ord n rs s)) = requests (snd s)"
  by (induction rs arbitrary: n s) auto

lemma handled_commitTurn [simp]: "handled (commitTurn ks l a) = handled a"
  by (simp add: commitTurn_def Let_def split: option.splits)

lemma reconcile_Some:
  "history a = Some h \<Longrightarrow>
   reconcile ks messages a =
     Inr (a\<lparr>currentHandler := True,
            pendingToolCalls := {},
            history := Some (h @ (if pendingToolCalls a \<noteq> {} then map abortedResult ks else [])
                               @ messages)\<rparr>)"
  by (simp add: reconcile_def drainPending_def AddMessages_def Let_def)

lemma processing_processChoice:
  "processingToolCall (fst s) \<or> hasToolCalls c \<Longrightarrow>
   processingToolCall (fst (processChoice ks c s))"
  by (cases s) (auto simp add: processChoice_def Let_def split: option.splits prod.splits)

lemma messageItems_processChoice:
  "processingToolCall (fst s) \<or> hasToolCalls c \<Longrightarrow>
   messageItems (handled (snd (processChoice ks c s))) = messageItems (handled (snd s))"
  by (cases s) (auto simp add: processChoice_def Let_def split: option.splits prod.splits)

lemma processing_processResponse_mono:
  "processingToolCall (fst s) \<Longrightarrow> processingToolCall (fst (processResponse ks r s))"
  by (cases r) (simp_all add: processResponse_def processing_processChoice)

lemma processing_toolData:
  "toolData r \<Longrightarrow> processingToolCall (fst (processResponse ks r s))"
  by (cases r) (simp_all add: processResponse_def toolData_def processing_processChoice)

lemma messageItems_processing:
  "processingToolCall (fst s) \<or> toolData r \<Longrightarrow>
   messageItems (handled (snd (processResponse ks r s))) = messageItems (handled (snd s))"
  by (cases r) (auto simp add: processResponse_def toolData_def messageItems_processChoice)

lemma messageItems_recvLoop_processing:
  "processingToolCall (fst s) \<Longrightarrow>
   messageItems (handled (snd (recvLoop ord n rs s))) = messageItems (handled (snd s))"
proof (induction rs arbitrary: n s)
  case Nil
  show ?case by simp
next
  case (Cons r rs)
  have "messageItems (handled (snd (recvLoop ord (Suc n) rs (processResponse (ord n) r s)))) =
        messageItems (handled (snd (processResponse (ord n) r s)))"
    using Cons.prems by (intro Cons.IH processing_processResponse_mono)
  then show ?case
    using Cons.prems by (simp add: messageItems_processing)
qed

lemma recvLoop_append:
  "recvLoop ord n (xs @ ys) s = recvLoop ord (n + length xs) ys (recvLoop ord n xs s)"
  by (induction xs arbitrary: n s) auto


lemma SendMessage_Stream:
  assumes "history a = Some h"
  shows "SendMessage it gmc messages (Stream rs e) a =
     (let a2 = a\<lparr>currentHandler := True, pendingToolCalls := {},
                 history := Some (h @ fst (drainPending (pendingOrder it) a) @ messages)\<rparr>;
          a3 = a2\<lparr>requests := requests a @
                  [convertHistory (gmc (h @ fst (drainPending (pendingOrder it) a) @ messages))]\<rparr>;
          s = recvLoop (readyOrder it) 0 rs (initialLocals, a3)
      in (case e of
            RecvError \<Rightarrow> (Inl ErrRecv, snd s)
          | EOF \<Rightarrow> (Inr (streamEndedWithToolCall (fst s)),
                     commitTurn (commitOrder it) (fst s) (snd s))))"
  using assms
  by (simp add: SendMessage_def reconcile_Some drainPending_def Let_def split: prod.splits StreamEnd.splits)

lemma handled_SendMessage_Stream:
  assumes "history a = Some h"
  shows "handled (snd (SendMessage it gmc messages (Stream rs e) a)) =
     handled (snd (recvLoop (readyOrder it) 0 rs (initialLocals,
       a\<lparr>currentHandler := True, pendingToolCalls := {},
         history := Some (h @ fst (drainPending (pendingOrder it) a) @ messages),
         requests := requests a @
           [convertHistory (gmc (h @ fst (drainPending (pendingOrder it) a) @ messages))]\<rparr>)))"
  by (simp add: SendMessage_Stream [OF assms] Let_def split: StreamEnd.splits)

lemma SendMessage_nil_history:
  "history a = None \<Longrightarrow> SendMessage it gmc messages stream a = (Inl NilPointerPanic, a)"
  by (simp add: SendMessage_def reconcile_def drainPending_def Let_def)


lemma flag_processChoice:
  assumes "processingToolCall (fst s) \<longrightarrow> streamEndedWithToolCall (fst s)"
  shows "streamEndedWithToolCall (fst (processChoice ks c s)) =
           (streamEndedWithToolCall (fst s) \<or> hasToolCalls c \<or> FinishReason c = ''tool_calls'')"
    and "processingToolCall (fst (processChoice ks c s)) \<longrightarrow>
           streamEndedWithToolCall (fst (processChoice ks c s))"
  using assms
  by (cases s; auto simp add: processChoice_def hasToolCalls_def Let_def split: option.splits prod.splits)+

lemma flag_processResponse:
  assumes "processingToolCall (fst s) \<longrightarrow> streamEndedWithToolCall (fst s)"
  shows "streamEndedWithToolCall (fst (processResponse ks r s)) =
           (streamEndedWithToolCall (fst s) \<or> toolData r \<or> finishMarker r = ''tool_calls'')"
    and "processingToolCall (fst (processResponse ks r s)) \<longrightarrow>
           streamEndedWithToolCall (fst (processResponse ks r s))"
  using assms flag_processChoice [of s]
  by (cases r; simp add: processResponse_def toolData_def finishMarker_def)+

lemma flag_recvLoop:
  assumes "processingToolCall (fst s) \<longrightarrow> streamEndedWithToolCall (fst s)"
  shows "streamEndedWithToolCall (fst (recvLoop ord n rs s)) =
           (streamEndedWithToolCall (fst s) \<or>
            (\<exists>r \<in> set rs. toolData r \<or> finishMarker r = ''tool_calls''))"
  using assms
proof (induction rs arbitrary: n s)
  case Nil
  show ?case by simp
next
  case (Cons r rs)
  note step = flag_processResponse [OF Cons.prems, of "ord n" r]
  show ?case
    using Cons.IH [OF step(2), of "Suc n"] step(1) by auto
qed


subsection \<open>Mode lock-in\<close>

text \<open>
  C6. In a turn processed by \<open>SendMessage\<close>, once a delta carrying tool-call data (\<open>r\<close>) has
  been received, no further \<open>message\<close> item reaches the handler: whatever follows \<open>r\<close> in
  the stream, and however the stream ends, the \<open>message\<close> items handed over in the whole
  turn are those handed over before \<open>r\<close> arrived.
\<close>

theorem SendMessage_mode_lock_in:
  assumes "toolData r"
  shows "messageItems (handled (snd (SendMessage it gmc messages (Stream (pre @ r # post) e) a))) =
         messageItems (handled (snd (SendMessage it gmc messages (Stream pre e') a)))"
proof (cases "history a")
  case None
  then show ?thesis by (simp add: SendMessage_nil_history)
next
  case (Some h)
  let ?s = "recvLoop (readyOrder it) 0 pre (initialLocals,
       a\<lparr>currentHandler := True, pendingToolCalls := {},
         history := Some (h @ fst (drainPending (pendingOrder it) a) @ messages),
         requests := requests a @
           [convertHistory (gmc (h @ fst (drainPending (pendingOrder it) a) @ messages))]\<rparr>)"
  let ?t = "processResponse (readyOrder it (length pre)) r ?s"
  have "messageItems (handled (snd (recvLoop (readyOrder it) (Suc (length pre)) post ?t))) =
        messageItems (handled (snd ?t))"
    using assms by (intro messageItems_recvLoop_processing processing_toolData)
  also have "\<dots> = messageItems (handled (snd ?s))"
    using assms by (simp add: messageItems_processing)
  finally show ?thesis
    by (simp add: handled_SendMessage_Stream [OF Some] recvLoop_append)
qed


theorem SendMessage_mode_lock_in_witness:
  "toolData (toolChunk ''c1'' ''shell'' ''{}'') \<and>
   messageItems (handled (snd (SendMessage (iterate [''c1'']) id [userMessage ''hi'']
     (Stream ([textChunk ''a''] @ toolChunk ''c1'' ''shell'' ''{}'' #
        [textChunk ''b'', finishChunk ''tool_calls'']) EOF) newAgent))) =
     [messageItem ''assistant'' ''a'']"
proof -
  have t: "toolData (toolChunk ''c1'' ''shell'' ''{}'')"
    by (simp add: toolData_def hasToolCalls_def toolChunk_def)
  show ?thesis
    using t SendMessage_mode_lock_in [OF t, of "iterate [''c1'']" id "[userMessage ''hi'']"
        "[textChunk ''a'']" "[textChunk ''b'', finishChunk ''tool_calls'']" EOF newAgent EOF]
    by (simp add: model_defs example_defs messageItems_def)
qed

subsection \<open>Reconciliation of pending calls\<close>






subsection \<open>Failed streams\<close>

text \<open>
  C9. If the stream cannot be created, or if \<open>Recv\<close> fails with an error other than
  \<open>io.EOF\<close> (a transport error, or the error of the cancelled context), \<open>SendMessage\<close>
  returns an error and adds no assistant entry: the history is the one the turn started
  from, that is the log as it stood when the request was built (the old log, the
  synthetic results of abandoned calls and the caller's new messages).
\<close>

theorem SendMessage_failed_stream_commits_nothing:
  assumes "history a = Some h" and "stream = CreateError \<or> stream = Stream rs RecvError"
  shows "(\<exists>e. fst (SendMessage it gmc messages stream a) = Inl e) \<and>
         (\<exists>a2. reconcile (pendingOrder it) messages a = Inr a2 \<and>
            history (snd (SendMessage it gmc messages stream a)) = history a2 \<and>
            history a2 = Some (h @ fst (drainPending (pendingOrder it) a) @ messages))"
  using assms(2)
proof
  assume "stream = CreateError"
  then show ?thesis
    by (simp add: SendMessage_def reconcile_Some [OF assms(1)] drainPending_def)
next
  assume "stream = Stream rs RecvError"
  then show ?thesis
    by (simp add: SendMessage_Stream [OF assms(1)] reconcile_Some [OF assms(1)] Let_def
        drainPending_def)
qed

theorem SendMessage_failed_stream_commits_nothing_witness:
  "history newAgent = Some [] \<and>
   fst (SendMessage (iterate []) id [userMessage ''q'']
     (Stream [textChunk ''partial''] RecvError) newAgent) = Inl ErrRecv \<and>
   history (snd (SendMessage (iterate []) id [userMessage ''q'']
     (Stream [textChunk ''partial''] RecvError) newAgent)) = Some [userMessage ''q'']"
proof -
  have h: "history newAgent = Some []"
    by (simp add: newAgent_def)
  have s: "Stream [textChunk ''partial''] RecvError = CreateError \<or>
           Stream [textChunk ''partial''] RecvError = Stream [textChunk ''partial''] RecvError"
    by simp
  show ?thesis
    using h SendMessage_failed_stream_commits_nothing [OF h s, of "iterate []" id
        "[userMessage ''q'']"]
    by (simp add: model_defs example_defs)
qed

subsection \<open>Cumulative text deltas\<close>

lemma cumulative_Cons:
  "map (\<lambda>k. c @ concat (take k (f # fs))) [1..<Suc (Suc (length fs))] =
     (c @ f) # map (\<lambda>k. (c @ f) @ concat (take k fs)) [1..<Suc (length fs)]"
proof -
  have "[1..<Suc (Suc (length fs))] = 1 # map Suc [1..<Suc (length fs)]"
    by (simp add: upt_conv_Cons map_Suc_upt del: upt_Suc)
  then show ?thesis
    by (simp add: o_def del: upt_Suc)
qed

lemma messageContents_cong:
  "messageItems xs = messageItems ys \<Longrightarrow> messageContents xs = messageContents ys"
  by (simp add: messageContents_def)

lemma messageContents_single [simp]:
  "messageContents [(messageItem role content, p)] = [content]"
  "messageContents [(functionCallItem callID call, p)] = []"
  "messageContents [(followupCompleteItem, p)] = []"
  by (simp_all add: messageContents_def messageItems_def messageItem_def functionCallItem_def
      followupCompleteItem_def)

lemma text_processChoice:
  assumes "\<not> processingToolCall (fst s)" and "\<not> hasToolCalls c"
  shows "\<not> processingToolCall (fst (processChoice ks c s))"
    and "currentContent (fst (processChoice ks c s)) =
           currentContent (fst s) @ delta_Content (Delta c)"
    and "messageContents (handled (snd (processChoice ks c s))) =
           messageContents (handled (snd s)) @
           (if delta_Content (Delta c) = '''' then []
            else [currentContent (fst s) @ delta_Content (Delta c)])"
proof -
  obtain l a where s: "s = (l, a)"
    by (cases s)
  show "\<not> processingToolCall (fst (processChoice ks c s))"
    using assms by (simp add: s processChoice_def Let_def split: option.splits prod.splits)
  show "currentContent (fst (processChoice ks c s)) =
           currentContent (fst s) @ delta_Content (Delta c)"
    using assms by (simp add: s processChoice_def Let_def split: option.splits prod.splits)
  have m: "messageContents (handled (sendFunctionCalls ks' acc a')) = messageContents (handled a')"
    for ks' acc a'
    by (rule messageContents_cong) simp
  show "messageContents (handled (snd (processChoice ks c s))) =
           messageContents (handled (snd s)) @
           (if delta_Content (Delta c) = '''' then []
            else [currentContent (fst s) @ delta_Content (Delta c)])"
    using assms
    by (simp add: s processChoice_def Let_def m split: option.splits prod.splits)
qed

lemma fragments_Cons:
  "fragments (r # rs) =
     (case r of [] \<Rightarrow> [] | c # _ \<Rightarrow> (if delta_Content (Delta c) = '''' then []
        else [delta_Content (Delta c)])) @ fragments rs"
  by (simp add: fragments_def split: list.splits)

lemma text_recvLoop:
  assumes "\<not> processingToolCall (fst s)" and "\<forall>r \<in> set rs. noToolData r"
  shows "messageContents (handled (snd (recvLoop ord n rs s))) =
           messageContents (handled (snd s)) @
           map (\<lambda>k. currentContent (fst s) @ concat (take k (fragments rs)))
             [1..<Suc (length (fragments rs))]"
  using assms
proof (induction rs arbitrary: n s)
  case Nil
  show ?case by (simp add: fragments_def)
next
  case (Cons r rs)
  show ?case
  proof (cases r)
    case Nil
    then show ?thesis
      using Cons.IH [of s "Suc n"] Cons.prems
      by (simp add: processResponse_def fragments_Cons del: upt_Suc)
  next
    case (Cons c cs)
    let ?t = "processChoice (ord n) c s"
    have nt: "\<not> hasToolCalls c"
      using Cons.prems(2) Cons by (simp add: noToolData_def)
    note step = text_processChoice [OF Cons.prems(1) nt, of "ord n"]
    have ih: "messageContents (handled (snd (recvLoop ord (Suc n) rs ?t))) =
           messageContents (handled (snd ?t)) @
           map (\<lambda>k. currentContent (fst ?t) @ concat (take k (fragments rs)))
             [1..<Suc (length (fragments rs))]"
      using Cons.prems(2) by (intro Cons.IH step(1)) simp
    show ?thesis
    proof (cases "delta_Content (Delta c) = ''''")
      case True
      then show ?thesis
        using ih step(2,3) Cons by (simp add: processResponse_def fragments_Cons del: upt_Suc)
    next
      case False
      then show ?thesis
        using ih step(2,3) Cons cumulative_Cons [of "currentContent (fst s)"
            "delta_Content (Delta c)" "fragments rs"]
        by (simp add: processResponse_def fragments_Cons del: upt_Suc)
    qed
  qed
qed

lemma messageItems_finishFollowup [simp]:
  "messageItems (handled (finishFollowup l a)) = messageItems (handled a)"
  by (simp add: finishFollowup_def Let_def messageItems_def followupCompleteItem_def
      split: option.splits)

lemma text_followupChoice:
  shows "fu_currentContent (fst (followupChoice c s)) =
           fu_currentContent (fst s) @ delta_Content (Delta c)"
    and "messageContents (handled (snd (followupChoice c s))) =
           messageContents (handled (snd s)) @
           (if delta_Content (Delta c) = '''' then []
            else [fu_currentContent (fst s) @ delta_Content (Delta c)])"
proof -
  obtain l a where s: "s = (l, a)"
    by (cases s)
  show "fu_currentContent (fst (followupChoice c s)) =
           fu_currentContent (fst s) @ delta_Content (Delta c)"
    by (simp add: s followupChoice_def Let_def split: option.splits prod.splits list.splits)
  show "messageContents (handled (snd (followupChoice c s))) =
           messageContents (handled (snd s)) @
           (if delta_Content (Delta c) = '''' then []
            else [fu_currentContent (fst s) @ delta_Content (Delta c)])"
    by (simp add: s followupChoice_def Let_def split: option.splits prod.splits list.splits)
qed

lemma text_followupLoop:
  "messageContents (handled (snd (followupLoop rs s))) =
     messageContents (handled (snd s)) @
     map (\<lambda>k. fu_currentContent (fst s) @ concat (take k (fragments rs)))
       [1..<Suc (length (fragments rs))]"
proof (induction rs arbitrary: s)
  case Nil
  show ?case by (simp add: fragments_def)
next
  case (Cons r rs)
  show ?case
  proof (cases r)
    case Nil
    then show ?thesis
      using Cons.IH [of s] by (simp add: fragments_Cons del: upt_Suc)
  next
    case (Cons c cs)
    let ?t = "followupChoice c s"
    note step = text_followupChoice [of c s]
    show ?thesis
    proof (cases "delta_Content (Delta c) = ''''")
      case True
      then show ?thesis
        using Cons.IH [of ?t] step Cons by (simp add: fragments_Cons del: upt_Suc)
    next
      case False
      then show ?thesis
        using Cons.IH [of ?t] step Cons cumulative_Cons [of "fu_currentContent (fst s)"
            "delta_Content (Delta c)" "fragments rs"]
        by (simp add: fragments_Cons del: upt_Suc)
    qed
  qed
qed

lemma SendFunctionResult_Stream:
  assumes "history a = Some h" and "currentHandler a"
  shows "SendFunctionResult js gmc callID fn out succ (Stream rs e) a =
     (let m = \<lparr>Role = ''tool'', Content = toolResultContent js out succ, ToolCalls = [],
               ToolCallID = callID, msg_Name = fn\<rparr>;
          a3 = a\<lparr>pendingToolCalls := pendingToolCalls a - {callID},
                 history := Some (h @ [m]),
                 requests := requests a @ [filterHistory (gmc (h @ [m])) {}]\<rparr>;
          s = followupLoop rs (initialFollowup, a3)
      in (case e of
            RecvError \<Rightarrow> (Some ErrRecv, snd s)
          | EOF \<Rightarrow> (None, finishFollowup (fst s) (snd s))))"
  using assms
  by (auto simp add: SendFunctionResult_def AddMessage_def Let_def
      split: prod.splits StreamEnd.splits)


lemma text_recvLoop_prefix:
  assumes "\<not> processingToolCall (fst s)" and "\<forall>r \<in> set pre. noToolData r"
    and "post \<noteq> [] \<longrightarrow> toolData (hd post)"
  shows "messageContents (handled (snd (recvLoop ord n (pre @ post) s))) =
           messageContents (handled (snd s)) @
           map (\<lambda>k. currentContent (fst s) @ concat (take k (fragments pre)))
             [1..<Suc (length (fragments pre))]"
proof (cases post)
  case Nil
  then show ?thesis
    using text_recvLoop [OF assms(1,2)] by simp
next
  case (Cons r post')
  let ?s = "recvLoop ord n pre s"
  let ?t = "processResponse (ord (n + length pre)) r ?s"
  have t: "toolData r"
    using assms(3) Cons by simp
  have "messageItems (handled (snd (recvLoop ord (Suc (n + length pre)) post' ?t))) =
        messageItems (handled (snd ?t))"
    using t by (intro messageItems_recvLoop_processing processing_toolData)
  also have "\<dots> = messageItems (handled (snd ?s))"
    using t by (simp add: messageItems_processing)
  finally have "messageContents (handled (snd (recvLoop ord n (pre @ post) s))) =
      messageContents (handled (snd ?s))"
    by (simp add: Cons recvLoop_append messageContents_def)
  then show ?thesis
    using text_recvLoop [OF assms(1,2)] by simp
qed

text \<open>
  C5. Let \<open>f1..fn\<close> be the text fragments (\<^const>\<open>fragments\<close>: the non-empty contents of the
  deltas, in order) that a turn consumes while no delta carrying tool-call data has been
  seen: the fragments of \<open>pre\<close>, where \<open>post\<close>, the rest of the stream, is empty or starts
  with the first such delta. In \<open>SendMessage\<close>, for every agent with a history (a fresh
  one included), the handler receives exactly \<open>n\<close> \<open>message\<close> items in the turn, and the
  \<open>k\<close>-th of them carries the concatenation of \<open>f1..fk\<close>. The follow-up loop of
  \<open>SendFunctionResult\<close>, which runs when a handler is stored, has no tool-call mode: there
  the same holds of the fragments of the whole stream, \<open>f1..fn\<close> being the first of them.
\<close>

theorem text_deltas_are_cumulative:
  assumes "history a = Some h"
    and "\<forall>r \<in> set pre. noToolData r" and "post \<noteq> [] \<longrightarrow> toolData (hd post)"
  shows "messageContents (handled (snd (SendMessage it gmc messages (Stream (pre @ post) e) a))) =
           messageContents (handled a) @
           map (\<lambda>k. concat (take k (fragments pre))) [1..<Suc (length (fragments pre))] \<and>
         (currentHandler a \<longrightarrow>
          messageContents (handled (snd (SendFunctionResult js gmc callID fn out succ
             (Stream (pre @ post) e) a))) =
           messageContents (handled a) @
           map (\<lambda>k. concat (take k (fragments (pre @ post))))
             [1..<Suc (length (fragments (pre @ post)))])"
proof (intro conjI impI)
  show "messageContents (handled (snd (SendMessage it gmc messages (Stream (pre @ post) e) a))) =
           messageContents (handled a) @
           map (\<lambda>k. concat (take k (fragments pre))) [1..<Suc (length (fragments pre))]"
    using text_recvLoop_prefix [OF _ assms(2,3), of "(initialLocals, x)" for x]
    by (simp add: handled_SendMessage_Stream [OF assms(1)] initialLocals_def del: upt_Suc)
  assume c: "currentHandler a"
  let ?rs = "pre @ post"
  have "messageContents (handled (snd (SendFunctionResult js gmc callID fn out succ
             (Stream ?rs e) a))) =
        messageContents (handled (snd (followupLoop ?rs (initialFollowup,
          a\<lparr>pendingToolCalls := pendingToolCalls a - {callID},
            history := Some (h @ [\<lparr>Role = ''tool'', Content = toolResultContent js out succ,
               ToolCalls = [], ToolCallID = callID, msg_Name = fn\<rparr>]),
            requests := requests a @ [filterHistory (gmc (h @
               [\<lparr>Role = ''tool'', Content = toolResultContent js out succ,
               ToolCalls = [], ToolCallID = callID, msg_Name = fn\<rparr>])) {}]\<rparr>))))"
    by (simp add: SendFunctionResult_Stream [OF assms(1) c] Let_def messageContents_def
        split: StreamEnd.splits)
  then show "messageContents (handled (snd (SendFunctionResult js gmc callID fn out succ
             (Stream ?rs e) a))) =
           messageContents (handled a) @
           map (\<lambda>k. concat (take k (fragments ?rs))) [1..<Suc (length (fragments ?rs))]"
    by (simp add: text_followupLoop initialFollowup_def del: upt_Suc)
qed

theorem text_deltas_are_cumulative_witness:
  "history newAgent = Some [] \<and> \<not> currentHandler newAgent \<and>
   noToolData (textChunk ''a'') \<and> noToolData (textChunk ''b'') \<and>
   toolData (hd [toolChunk ''c2'' ''shell'' ''{}'', textChunk ''c'']) \<and>
   messageContents (handled (snd (SendMessage
     \<lparr>pendingOrder = [], readyOrder = (\<lambda>k. [''c2'']), commitOrder = [''c2'']\<rparr>
     id [userMessage ''q'']
     (Stream ([textChunk ''a'', textChunk ''b''] @
        [toolChunk ''c2'' ''shell'' ''{}'', textChunk ''c'']) EOF) newAgent))) =
     [''a'', ''ab''] \<and>
   history abandonedAgent = Some (the (history abandonedAgent)) \<and>
   currentHandler abandonedAgent \<and>
   messageContents (handled (snd (SendMessage
     \<lparr>pendingOrder = [''c1''], readyOrder = (\<lambda>k. [''c2'']), commitOrder = [''c2'']\<rparr>
     id [userMessage ''q'']
     (Stream ([textChunk ''a'', textChunk ''b''] @
        [toolChunk ''c2'' ''shell'' ''{}'', textChunk ''c'']) EOF) abandonedAgent))) =
     [''a'', ''ab''] \<and>
   messageContents (handled (snd (SendFunctionResult quoted id ''c1'' ''list_directory''
     ''a.txt'' True (Stream ([textChunk ''a'', textChunk ''b''] @
        [toolChunk ''c2'' ''shell'' ''{}'', textChunk ''c'']) EOF) abandonedAgent))) =
     [''a'', ''ab'', ''abc'']"
proof -
  have h0: "history newAgent = Some []" and c0: "\<not> currentHandler newAgent"
    by (simp_all add: newAgent_def)
  have h: "history abandonedAgent = Some (the (history abandonedAgent))"
    by (simp add: abandonedAgent_def)
  have c: "currentHandler abandonedAgent"
    by (simp add: abandonedAgent_def)
  have n: "\<forall>r \<in> set [textChunk ''a'', textChunk ''b'']. noToolData r"
    by (simp add: noToolData_def hasToolCalls_def textChunk_def)
  have t: "[toolChunk ''c2'' ''shell'' ''{}'', textChunk ''c''] \<noteq> [] \<longrightarrow>
           toolData (hd [toolChunk ''c2'' ''shell'' ''{}'', textChunk ''c''])"
    by (simp add: toolData_def hasToolCalls_def toolChunk_def)
  show ?thesis
    using h0 c0 h c n t
      text_deltas_are_cumulative [OF h0 n t,
        of "\<lparr>pendingOrder = [], readyOrder = (\<lambda>k. [''c2'']), commitOrder = [''c2'']\<rparr>" id
        "[userMessage ''q'']" EOF quoted "''c1''" "''list_directory''" "''a.txt''" True]
      text_deltas_are_cumulative [OF h n t,
        of "\<lparr>pendingOrder = [''c1''], readyOrder = (\<lambda>k. [''c2'']), commitOrder = [''c2'']\<rparr>" id
        "[userMessage ''q'']" EOF quoted "''c1''" "''list_directory''" "''a.txt''" True]
    by (simp add: fragments_def textChunk_def toolChunk_def abandonedAgent_def newAgent_def
        messageContents_def messageItems_def)
qed

subsection \<open>Order of the function calls\<close>

lemma keys_accumulate:
  "fst ` set (accumulate tcs acc) =
     fst ` set acc \<union> {i \<in> oa_ID ` set tcs. i \<noteq> ''''}"
proof (induction tcs arbitrary: acc)
  case Nil
  show ?case by simp
next
  case (Cons t tcs)
  show ?case
    by (auto simp add: Cons.IH Let_def dom_update map_of_eq_None_iff
        split: option.splits)
qed

lemma keys_processChoice:
  "fst ` set (accumulatingToolCalls (fst (processChoice ks c s))) =
     fst ` set (accumulatingToolCalls (fst s)) \<union>
     (case delta_ToolCalls (Delta c) of None \<Rightarrow> {}
      | Some tcs \<Rightarrow> {i \<in> oa_ID ` set tcs. i \<noteq> ''''})"
  by (cases s)
     (auto simp add: processChoice_def hasToolCalls_def keys_accumulate Let_def
        split: option.splits prod.splits)

lemma chunkIDs_Nil [simp]: "chunkIDs [] = []"
  by (simp add: chunkIDs_def)

lemma set_chunkIDs_Cons:
  "set (chunkIDs (r # rs)) =
     (case r of [] \<Rightarrow> {}
      | c # _ \<Rightarrow> (case delta_ToolCalls (Delta c) of None \<Rightarrow> {}
                   | Some tcs \<Rightarrow> {i \<in> oa_ID ` set tcs. i \<noteq> ''''})) \<union> set (chunkIDs rs)"
  by (auto simp add: chunkIDs_def split: list.splits option.splits)

lemma keys_processResponse:
  "fst ` set (accumulatingToolCalls (fst (processResponse ks r s))) =
     fst ` set (accumulatingToolCalls (fst s)) \<union> set (chunkIDs [r])"
  by (cases r) (simp_all add: processResponse_def keys_processChoice set_chunkIDs_Cons)

lemma keys_recvLoop:
  "fst ` set (accumulatingToolCalls (fst (recvLoop ord n rs s))) =
     fst ` set (accumulatingToolCalls (fst s)) \<union> set (chunkIDs rs)"
proof (induction rs arbitrary: n s)
  case Nil
  show ?case by simp
next
  case (Cons r rs)
  show ?case
    using set_chunkIDs_Cons [of r rs] set_chunkIDs_Cons [of r "[]"]
    by (simp add: Cons.IH keys_processResponse Un_assoc)
qed

lemma functionCallIDs_single [simp]:
  "functionCallIDs [(messageItem role content, p)] = []"
  "functionCallIDs [(functionCallItem callID call, p)] = [callID]"
  "functionCallIDs [(followupCompleteItem, p)] = []"
  by (simp_all add: functionCallIDs_def functionCallItems_def messageItem_def
      functionCallItem_def followupCompleteItem_def)

lemma functionCallIDs_processChoice:
  "functionCallIDs (handled (snd (processChoice ks c s))) =
     functionCallIDs (handled (snd s)) @
     (if FinishReason c = ''tool_calls''
      then filter (\<lambda>k. k \<in> fst ` set (accumulatingToolCalls (fst (processChoice ks c s)))) ks
      else [])"
  by (cases s)
     (simp add: processChoice_def Let_def functionCallIDs_sendFunctionCalls map_of_eq_None_iff
        split: option.splits prod.splits)

lemma functionCallIDs_processResponse:
  "functionCallIDs (handled (snd (processResponse ks r s))) =
     functionCallIDs (handled (snd s)) @
     (if finishMarker r = ''tool_calls''
      then filter (\<lambda>k. k \<in> fst ` set (accumulatingToolCalls (fst (processResponse ks r s)))) ks
      else [])"
  by (cases r)
     (simp_all add: processResponse_def finishMarker_def functionCallIDs_processChoice)

lemma functionCallIDs_recvLoop_no_marker:
  "\<forall>r \<in> set rs. finishMarker r \<noteq> ''tool_calls'' \<Longrightarrow>
   functionCallIDs (handled (snd (recvLoop ord n rs s))) = functionCallIDs (handled (snd s))"
  by (induction rs arbitrary: n s) (simp_all add: functionCallIDs_processResponse)


text \<open>
  C3, as the claim states it, fails. The stream below shows the id \<open>c1\<close> before the id
  \<open>c2\<close> and ends the turn with the finish reason \<open>tool_calls\<close>. The loop that hands the
  function calls to the handler ranges over a Go map, and \<open>c2, c1\<close> is a possible order
  of that loop: then the handler receives \<open>c2\<close> before \<open>c1\<close>.
\<close>

theorem function_calls_first_seen_order_counterexample:
  "rangeOrder [''c2'', ''c1'']
     (set (chunkIDs [toolChunk ''c1'' ''shell'' ''{}'', toolChunk ''c2'' ''read_file'' ''{}'',
        finishChunk ''tool_calls''])) \<and>
   firstSeen [] (chunkIDs [toolChunk ''c1'' ''shell'' ''{}'', toolChunk ''c2'' ''read_file'' ''{}'',
        finishChunk ''tool_calls'']) = [''c1'', ''c2''] \<and>
   functionCallIDs (handled (snd (SendMessage (iterate [''c2'', ''c1'']) id [userMessage ''q'']
     (Stream [toolChunk ''c1'' ''shell'' ''{}'', toolChunk ''c2'' ''read_file'' ''{}'',
        finishChunk ''tool_calls''] EOF) newAgent))) = [''c2'', ''c1'']"
  by (auto simp add: model_defs example_defs rangeOrder_def chunkIDs_def functionCallIDs_def
      functionCallItems_def)

text \<open>
  C3, amended. For every turn that a \<open>tool_calls\<close> finish reason finalizes (no earlier
  response carries that finish reason), the handler receives in that turn exactly one
  \<open>function_call\<close> item per accumulated tool-call id, in the order in which the runtime
  iterates the map of accumulated calls; that order lists every id seen in the stream
  once and is otherwise not determined.
\<close>

theorem function_calls_in_iteration_order:
  assumes "history a = Some h"
    and "\<forall>r \<in> set rs. finishMarker r \<noteq> ''tool_calls''"
    and "finishMarker fin = ''tool_calls''"
    and "rangeOrder (readyOrder it (length rs)) (set (chunkIDs (rs @ [fin])))"
  shows "functionCallIDs (handled (snd (SendMessage it gmc messages (Stream (rs @ [fin]) e) a))) =
           functionCallIDs (handled a) @ readyOrder it (length rs)"
proof -
  let ?ks = "readyOrder it (length rs)"
  let ?a3 = "a\<lparr>currentHandler := True, pendingToolCalls := {},
         history := Some (h @ fst (drainPending (pendingOrder it) a) @ messages),
         requests := requests a @
           [convertHistory (gmc (h @ fst (drainPending (pendingOrder it) a) @ messages))]\<rparr>"
  let ?s = "recvLoop (readyOrder it) 0 rs (initialLocals, ?a3)"
  let ?t = "processResponse ?ks fin ?s"
  have keys: "fst ` set (accumulatingToolCalls (fst ?t)) = set (chunkIDs (rs @ [fin]))"
    by (simp add: keys_processResponse keys_recvLoop initialLocals_def chunkIDs_def)
  have all: "filter (\<lambda>k. k \<in> set (chunkIDs (rs @ [fin]))) ?ks = ?ks"
    using assms(4) by (simp add: rangeOrder_def)
  have "functionCallIDs (handled (snd ?t)) = functionCallIDs (handled (snd ?s)) @ ?ks"
    using assms(3) all by (simp add: functionCallIDs_processResponse keys)
  also have "functionCallIDs (handled (snd ?s)) = functionCallIDs (handled a)"
    using assms(2) by (simp add: functionCallIDs_recvLoop_no_marker)
  finally show ?thesis
    by (simp add: handled_SendMessage_Stream [OF assms(1)] recvLoop_append)
qed

theorem function_calls_in_iteration_order_witness:
  "history newAgent = Some [] \<and>
   finishMarker (toolChunk ''c1'' ''shell'' ''{}'') \<noteq> ''tool_calls'' \<and>
   finishMarker (toolChunk ''c2'' ''read_file'' ''{}'') \<noteq> ''tool_calls'' \<and>
   finishMarker (finishChunk ''tool_calls'') = ''tool_calls'' \<and>
   rangeOrder (readyOrder (iterate [''c2'', ''c1'']) 2)
     (set (chunkIDs ([toolChunk ''c1'' ''shell'' ''{}'', toolChunk ''c2'' ''read_file'' ''{}''] @
        [finishChunk ''tool_calls'']))) \<and>
   functionCallIDs (handled (snd (SendMessage (iterate [''c2'', ''c1'']) id [userMessage ''q'']
     (Stream ([toolChunk ''c1'' ''shell'' ''{}'', toolChunk ''c2'' ''read_file'' ''{}''] @
        [finishChunk ''tool_calls'']) EOF) newAgent))) = [''c2'', ''c1'']"
proof -
  have h: "history newAgent = Some []"
    by (simp add: newAgent_def)
  have n: "\<forall>r \<in> set [toolChunk ''c1'' ''shell'' ''{}'', toolChunk ''c2'' ''read_file'' ''{}''].
             finishMarker r \<noteq> ''tool_calls''"
    by (simp add: finishMarker_def toolChunk_def)
  have f: "finishMarker (finishChunk ''tool_calls'') = ''tool_calls''"
    by (simp add: finishMarker_def finishChunk_def)
  have r: "rangeOrder (readyOrder (iterate [''c2'', ''c1''])
              (length [toolChunk ''c1'' ''shell'' ''{}'', toolChunk ''c2'' ''read_file'' ''{}'']))
     (set (chunkIDs ([toolChunk ''c1'' ''shell'' ''{}'', toolChunk ''c2'' ''read_file'' ''{}''] @
        [finishChunk ''tool_calls''])))"
    by (auto simp add: rangeOrder_def iterate_def chunkIDs_def toolChunk_def finishChunk_def)
  show ?thesis
    using h n f r function_calls_in_iteration_order [OF h n f r, of id "[userMessage ''q'']" EOF]
    by (simp add: newAgent_def iterate_def functionCallIDs_def functionCallItems_def)
qed


subsection \<open>The outbound message sequence\<close>

lemmas session_defs = afterFirstTurn_def afterFollowup_def afterSecondResult_def

lemma resultIDs_simps [simp]:
  "resultIDs [] = {}"
  "resultIDs (m # ms) = (if cm_Role m = ''tool'' then {cm_ToolCallID m} else {}) \<union> resultIDs ms"
  by (auto simp add: resultIDs_def)

lemma textBeforeResultOf_decompose:
  "textBeforeResultOf callID ms \<Longrightarrow>
   \<exists>mid t post. ms = mid @ t # post \<and> assistantText t \<and> callID \<notin> resultIDs mid"
proof (induction ms)
  case Nil
  then show ?case by simp
next
  case (Cons m ms)
  show ?case
  proof (cases "assistantText m")
    case True
    then have "m # ms = [] @ m # ms \<and> assistantText m \<and> callID \<notin> resultIDs []"
      by simp
    then show ?thesis by blast
  next
    case False
    with Cons.prems have nr: "\<not> (cm_Role m = ''tool'' \<and> cm_ToolCallID m = callID)"
      and rec: "textBeforeResultOf callID ms"
      by (auto split: if_splits)
    from Cons.IH [OF rec] obtain mid t post
      where "ms = mid @ t # post" "assistantText t" "callID \<notin> resultIDs mid"
      by blast
    with nr have "m # ms = (m # mid) @ t # post \<and> assistantText t \<and>
        callID \<notin> resultIDs (m # mid)"
      by auto
    then show ?thesis by blast
  qed
qed

lemma textBeforeResultOf_compose:
  "assistantText t \<Longrightarrow> callID \<notin> resultIDs mid \<Longrightarrow>
   textBeforeResultOf callID (mid @ t # post)"
  by (induction mid) (auto split: if_splits)

lemma violatesOrdering_append: "violatesOrdering ms \<Longrightarrow> violatesOrdering (pre @ ms)"
  by (induction pre) auto

lemma violatesOrdering_iff: "violatesOrdering out \<longleftrightarrow> textBeforeResults out"
proof
  assume "violatesOrdering out"
  then show "textBeforeResults out"
  proof (induction out)
    case Nil
    then show ?case by simp
  next
    case (Cons m ms)
    show ?case
    proof (cases "violatesOrdering ms")
      case True
      from Cons.IH [OF this] obtain pre a mid t post where
        "ms = pre @ a # mid @ t # post" "issuesToolCalls a" "assistantText t"
        "\<exists>c \<in> set (cm_ToolCalls a). oa_ID c \<notin> resultIDs mid"
        unfolding textBeforeResults_def by blast
      then have "m # ms = (m # pre) @ a # mid @ t # post \<and> issuesToolCalls a \<and>
          assistantText t \<and> (\<exists>c \<in> set (cm_ToolCalls a). oa_ID c \<notin> resultIDs mid)"
        by simp
      then show ?thesis
        unfolding textBeforeResults_def by blast
    next
      case False
      with Cons.prems obtain c where i: "issuesToolCalls m" and c: "c \<in> set (cm_ToolCalls m)"
        and t: "textBeforeResultOf (oa_ID c) ms"
        by auto
      from textBeforeResultOf_decompose [OF t] obtain mid t' post where
        "ms = mid @ t' # post" "assistantText t'" "oa_ID c \<notin> resultIDs mid"
        by blast
      with i c have "m # ms = [] @ m # mid @ t' # post \<and> issuesToolCalls m \<and>
          assistantText t' \<and> (\<exists>c \<in> set (cm_ToolCalls m). oa_ID c \<notin> resultIDs mid)"
        by auto
      then show ?thesis
        unfolding textBeforeResults_def by blast
    qed
  qed
next
  assume "textBeforeResults out"
  then obtain pre a mid t post c where o: "out = pre @ a # mid @ t # post"
    and "issuesToolCalls a" "assistantText t" "c \<in> set (cm_ToolCalls a)"
    "oa_ID c \<notin> resultIDs mid"
    unfolding textBeforeResults_def by blast
  then have "violatesOrdering (a # mid @ t # post)"
    using textBeforeResultOf_compose [of t "oa_ID c" mid post] by auto
  then show "violatesOrdering out"
    unfolding o by (rule violatesOrdering_append)
qed

lemma filterStep_assistant_calls:
  "Role msg = ''assistant'' \<Longrightarrow> ToolCalls msg \<noteq> [] \<Longrightarrow>
   filterStep msg expected =
     (Some \<lparr>cm_Role = ''assistant'', cm_Content = '''',
            cm_ToolCalls = map convertToolCall (ToolCalls msg), cm_ToolCallID = ''''\<rparr>,
      expected \<union> set (map tc_ID (ToolCalls msg)))"
  by (simp add: filterStep_def Let_def)

lemma filterStep_assistant_text:
  "Role msg = ''assistant'' \<Longrightarrow> ToolCalls msg = [] \<Longrightarrow>
   filterStep msg expected =
     ((if expected \<noteq> {} then None
       else Some \<lparr>cm_Role = ''assistant'', cm_Content = Content msg, cm_ToolCalls = [],
                  cm_ToolCallID = ''''\<rparr>),
      expected)"
  by (simp add: filterStep_def Let_def)

lemma filterStep_tool:
  "Role msg = ''tool'' \<Longrightarrow>
   filterStep msg expected =
     (Some \<lparr>cm_Role = ''tool'', cm_Content = Content msg, cm_ToolCalls = [],
            cm_ToolCallID = ToolCallID msg\<rparr>,
      expected - {ToolCallID msg})"
  by (auto simp add: filterStep_def Let_def)

lemma filterStep_other:
  "Role msg \<noteq> ''assistant'' \<Longrightarrow> Role msg \<noteq> ''tool'' \<Longrightarrow>
   filterStep msg expected =
     (Some \<lparr>cm_Role = Role msg, cm_Content = Content msg, cm_ToolCalls = [],
            cm_ToolCallID = ''''\<rparr>,
      expected)"
  by (simp add: filterStep_def Let_def)

lemma filterHistory_awaits_result:
  "callID \<in> expected \<Longrightarrow> \<not> textBeforeResultOf callID (filterHistory hm expected)"
proof (induction hm arbitrary: expected)
  case Nil
  show ?case by simp
next
  case (Cons msg rest)
  consider (calls) "Role msg = ''assistant''" "ToolCalls msg \<noteq> []"
    | (plain) "Role msg = ''assistant''" "ToolCalls msg = []"
    | (result) "Role msg = ''tool''"
    | (other) "Role msg \<noteq> ''assistant''" "Role msg \<noteq> ''tool''"
    by blast
  then show ?case
  proof cases
    case calls
    have "callID \<in> expected \<union> set (map tc_ID (ToolCalls msg))"
      using Cons.prems by simp
    from Cons.IH [OF this] calls show ?thesis
      by (simp add: filterStep_assistant_calls assistantText_def)
  next
    case plain
    with Cons.prems Cons.IH [OF Cons.prems] show ?thesis
      by (auto simp add: filterStep_assistant_text)
  next
    case result
    show ?thesis
    proof (cases "ToolCallID msg = callID")
      case True
      with result show ?thesis
        by (simp add: filterStep_tool assistantText_def)
    next
      case False
      then have "callID \<in> expected - {ToolCallID msg}"
        using Cons.prems by simp
      from Cons.IH [OF this] False result show ?thesis
        by (simp add: filterStep_tool assistantText_def)
    qed
  next
    case other
    with Cons.IH [OF Cons.prems] show ?thesis
      by (simp add: filterStep_other assistantText_def)
  qed
qed

lemma filterHistory_ordered: "\<not> violatesOrdering (filterHistory hm expected)"
proof (induction hm arbitrary: expected)
  case Nil
  show ?case by simp
next
  case (Cons msg rest)
  consider (calls) "Role msg = ''assistant''" "ToolCalls msg \<noteq> []"
    | (plain) "Role msg = ''assistant''" "ToolCalls msg = []"
    | (result) "Role msg = ''tool''"
    | (other) "Role msg \<noteq> ''assistant''" "Role msg \<noteq> ''tool''"
    by blast
  then show ?case
  proof cases
    case calls
    have "\<not> textBeforeResultOf (tc_ID tc)
            (filterHistory rest (expected \<union> set (map tc_ID (ToolCalls msg))))"
      if "tc \<in> set (ToolCalls msg)" for tc
      using that by (intro filterHistory_awaits_result) simp
    with calls Cons.IH show ?thesis
      by (auto simp add: filterStep_assistant_calls convertToolCall_def)
  next
    case plain
    with Cons.IH show ?thesis
      by (simp add: filterStep_assistant_text issuesToolCalls_def)
  next
    case result
    with Cons.IH show ?thesis
      by (simp add: filterStep_tool issuesToolCalls_def)
  next
    case other
    with Cons.IH show ?thesis
      by (simp add: filterStep_other issuesToolCalls_def)
  qed
qed

lemma requests_followupChoice [simp]:
  "requests (snd (followupChoice c s)) = requests (snd s)"
  by (cases s)
     (simp add: followupChoice_def Let_def split: option.splits prod.splits list.splits)

lemma requests_followupLoop [simp]:
  "requests (snd (followupLoop rs s)) = requests (snd s)"
  by (induction rs arbitrary: s) (auto split: list.splits)

lemma requests_finishFollowup [simp]: "requests (finishFollowup l a) = requests a"
  by (simp add: finishFollowup_def Let_def split: option.splits)

lemma SendFunctionResult_request_ordered:
  assumes "history a = Some h" and "currentHandler a"
  shows "\<exists>out. requests (snd (SendFunctionResult js gmc callID fn out' success stream a)) =
           requests a @ [out] \<and> \<not> textBeforeResults out"
proof -
  let ?m = "\<lparr>Role = ''tool'', Content = toolResultContent js out' success, ToolCalls = [],
             ToolCallID = callID, msg_Name = fn\<rparr>"
  have "requests (snd (SendFunctionResult js gmc callID fn out' success stream a)) =
          requests a @ [filterHistory (gmc (h @ [?m])) {}]"
  proof (cases stream)
    case CreateError
    then show ?thesis
      using assms by (auto simp add: SendFunctionResult_def AddMessage_def Let_def)
  next
    case (Stream rs e)
    then show ?thesis
      by (simp add: SendFunctionResult_Stream [OF assms] Let_def split: StreamEnd.splits)
  qed
  then show ?thesis
    by (simp add: violatesOrdering_iff [symmetric] filterHistory_ordered)
qed


text \<open>
  C1. The outbound sequence must never hold an assistant text entry after a
  tool-call-issuing assistant entry and before the results of all of its calls. The
  filtering step of \<open>SendFunctionResult\<close> guarantees this for every log
  (\<open>SendFunctionResult_request_ordered\<close>); the history conversion of \<open>SendMessage\<close> does
  not. In the session below the follow-up turn streams a text fragment and then issues
  the call \<open>c2\<close>, which leaves the text entry in the log between the entry issuing \<open>c2\<close>
  and the result of \<open>c2\<close>. The next \<open>SendMessage\<close> sends the log as it is, with the text
  entry in that place, whereas the filter applied to the same log removes it.
\<close>

theorem SendMessage_request_keeps_interleaved_text:
  "map (\<lambda>m. (Role m, Content m, map tc_ID (ToolCalls m), ToolCallID m))
     (the (history afterSecondResult)) =
     [(''user'', ''ls'', [], ''''),
      (''assistant'', '''', [''c1''], ''''),
      (''tool'', ''{\"output\":\"a.txt\"}'', [], ''c1''),
      (''assistant'', '''', [''c2''], ''''),
      (''assistant'', ''Let me check'', [], ''''),
      (''tool'', ''{\"output\":\"data\"}'', [], ''c2''),
      (''assistant'', ''done'', [], '''')] \<and>
   textBeforeResults (last (requests (snd (SendMessage (iterate []) id [userMessage ''thanks'']
     (Stream [textChunk ''welcome'', finishChunk ''stop''] EOF) afterSecondResult)))) \<and>
   \<not> textBeforeResults (filterHistory (the (history afterSecondResult)) {})"
  by (simp add: violatesOrdering_iff [symmetric] filterHistory_ordered)
     (simp add: session_defs model_defs example_defs assistantText_def issuesToolCalls_def)


subsection \<open>Registration of pending calls\<close>

lemma sendFunctionCalls_registers:
  "list_all deliveredWhilePending (handled a) \<Longrightarrow>
   list_all deliveredWhilePending (handled (sendFunctionCalls ks acc a))"
  by (induction ks arbitrary: a)
     (auto simp add: Let_def deliveredWhilePending_def functionCallItem_def
        split: option.splits)

lemma processChoice_registers:
  "list_all deliveredWhilePending (handled (snd s)) \<Longrightarrow>
   list_all deliveredWhilePending (handled (snd (processChoice ks c s)))"
  by (cases s)
     (auto simp add: processChoice_def Let_def deliveredWhilePending_def messageItem_def
        intro!: sendFunctionCalls_registers split: option.splits prod.splits)

lemma recvLoop_registers:
  "list_all deliveredWhilePending (handled (snd s)) \<Longrightarrow>
   list_all deliveredWhilePending (handled (snd (recvLoop ord n rs s)))"
proof (induction rs arbitrary: n s)
  case Nil
  then show ?case by simp
next
  case (Cons r rs)
  have "list_all deliveredWhilePending (handled (snd (processResponse (ord n) r s)))"
    using Cons.prems by (cases r) (simp_all add: processResponse_def processChoice_registers)
  from Cons.IH [OF this] show ?case by simp
qed

lemma SendMessage_registers_before_delivery:
  assumes "list_all deliveredWhilePending (handled a)"
  shows "list_all deliveredWhilePending (handled (snd (SendMessage it gmc messages stream a)))"
proof (cases "history a")
  case None
  with assms show ?thesis by (simp add: SendMessage_nil_history)
next
  case (Some h)
  show ?thesis
  proof (cases stream)
    case CreateError
    with assms show ?thesis
      by (simp add: SendMessage_def reconcile_Some [OF Some])
  next
    case (Stream rs e)
    with assms show ?thesis
      by (simp add: handled_SendMessage_Stream [OF Some] recvLoop_registers)
  qed
qed

text \<open>
  C4. Every \<open>function_call\<close> item must reach the handler when its id is already in
  \<open>pendingToolCalls\<close>. \<open>SendMessage\<close> does so (\<open>SendMessage_registers_before_delivery\<close>).
  The follow-up turn of \<open>SendFunctionResult\<close> does not. In the session below the first
  turn hands the call \<open>c1\<close> to the handler with \<open>c1\<close> pending; the follow-up turn hands
  the call \<open>c2\<close> to the handler while \<open>pendingToolCalls\<close> is empty, and never enters it.
\<close>

theorem SendFunctionResult_delivers_unregistered_call:
  "handled (snd (SendFunctionResult quoted id ''c1'' ''list_directory'' ''a.txt'' True
     (Stream [toolChunk ''c2'' ''read_file'' ''{}'', finishChunk ''tool_calls''] EOF)
     afterFirstTurn)) =
     [(functionCallItem ''c1'' \<lparr>oa_Name = ''list_directory'', oa_Arguments = ''{}''\<rparr>,
       {''c1''}),
      (functionCallItem ''c2'' \<lparr>oa_Name = ''read_file'', oa_Arguments = ''{}''\<rparr>, {}),
      (followupCompleteItem, {})] \<and>
   deliveredWhilePending
     (functionCallItem ''c1'' \<lparr>oa_Name = ''list_directory'', oa_Arguments = ''{}''\<rparr>,
      {''c1''}) \<and>
   \<not> deliveredWhilePending
       (functionCallItem ''c2'' \<lparr>oa_Name = ''read_file'', oa_Arguments = ''{}''\<rparr>, {}) \<and>
   pendingToolCalls (snd (SendFunctionResult quoted id ''c1'' ''list_directory'' ''a.txt'' True
     (Stream [toolChunk ''c2'' ''read_file'' ''{}'', finishChunk ''tool_calls''] EOF)
     afterFirstTurn)) = {}"
  by (simp add: session_defs model_defs example_defs deliveredWhilePending_def)

subsection \<open>The completion signal\<close>

text \<open>
  C8. The \<open>followup_complete\<close> item must be sent if and only if the follow-up turn did
  not end in new tool-call requests. In the follow-up turn below the stream issues the
  call \<open>c2\<close> and ends with the finish reason \<open>tool_calls\<close>: the assistant entry issuing
  \<open>c2\<close> is added to the history and the \<open>function_call\<close> item is sent, and the
  \<open>followup_complete\<close> item is sent all the same: the handler calls of the follow-up turn
  are \<open>function_call\<close> and then \<open>followup_complete\<close>.
\<close>

theorem SendFunctionResult_completes_after_tool_calls:
  "map (\<lambda>call. item_Type (fst call))
     (drop (length (handled afterFirstTurn))
        (handled (snd (SendFunctionResult quoted id ''c1'' ''list_directory'' ''a.txt'' True
           (Stream [toolChunk ''c2'' ''read_file'' ''{}'', finishChunk ''tool_calls''] EOF)
           afterFirstTurn)))) =
     [''function_call'', ''followup_complete''] \<and>
   map (\<lambda>m. (Role m, map tc_ID (ToolCalls m), ToolCallID m))
     (the (history (snd (SendFunctionResult quoted id ''c1'' ''list_directory'' ''a.txt'' True
        (Stream [toolChunk ''c2'' ''read_file'' ''{}'', finishChunk ''tool_calls''] EOF)
        afterFirstTurn)))) =
     [(''user'', [], ''''), (''assistant'', [''c1''], ''''), (''tool'', [], ''c1''),
      (''assistant'', [''c2''], '''')]"
  by (simp add: session_defs model_defs example_defs)

subsection \<open>End of stream\<close>

lemma accumulate_append:
  "accumulate (xs @ ys) acc = accumulate ys (accumulate xs acc)"
  by (induction xs arbitrary: acc) (auto simp add: Let_def split: option.splits)

lemma acc_processChoice:
  "accumulatingToolCalls (fst (processChoice ks c s)) =
     accumulate (case delta_ToolCalls (Delta c) of None \<Rightarrow> [] | Some tcs \<Rightarrow> tcs)
       (accumulatingToolCalls (fst s))"
  by (cases s)
     (auto simp add: processChoice_def hasToolCalls_def Let_def split: option.splits prod.splits)

lemma acc_processResponse:
  "accumulatingToolCalls (fst (processResponse ks r s)) =
     accumulate (streamToolCalls [r]) (accumulatingToolCalls (fst s))"
  by (cases r) (simp_all add: processResponse_def streamToolCalls_def acc_processChoice)

lemma streamToolCalls_Cons:
  "streamToolCalls (r # rs) = streamToolCalls [r] @ streamToolCalls rs"
  by (simp add: streamToolCalls_def)

lemma acc_recvLoop:
  "accumulatingToolCalls (fst (recvLoop ord n rs s)) =
     accumulate (streamToolCalls rs) (accumulatingToolCalls (fst s))"
proof (induction rs arbitrary: n s)
  case Nil
  show ?case by (simp add: streamToolCalls_def)
next
  case (Cons r rs)
  show ?case
    by (simp add: Cons.IH acc_processResponse streamToolCalls_Cons [of r rs] accumulate_append)
qed

lemma role_processChoice:
  "currentRole (fst (processChoice ks c s)) =
     (if delta_Role (Delta c) \<noteq> '''' then delta_Role (Delta c) else currentRole (fst s))"
  by (cases s)
     (simp add: processChoice_def Let_def split: option.splits prod.splits)

lemma role_recvLoop:
  "currentRole (fst (recvLoop ord n rs s)) = streamRole (currentRole (fst s)) rs"
proof (induction rs arbitrary: n s)
  case Nil
  show ?case by simp
next
  case (Cons r rs)
  show ?case
    by (cases r) (simp_all add: Cons.IH processResponse_def role_processChoice)
qed

lemma noToolData_iff: "noToolData r \<longleftrightarrow> \<not> toolData r"
  by (simp add: noToolData_def toolData_def split: list.splits)

lemma content_recvLoop:
  assumes "\<not> processingToolCall (fst s)" and "\<forall>r \<in> set rs. noToolData r"
  shows "currentContent (fst (recvLoop ord n rs s)) = currentContent (fst s) @ concat (fragments rs)"
  using assms
proof (induction rs arbitrary: n s)
  case Nil
  show ?case by (simp add: fragments_def)
next
  case (Cons r rs)
  show ?case
  proof (cases r)
    case Nil
    then show ?thesis
      using Cons.IH [of s "Suc n"] Cons.prems
      by (simp add: processResponse_def fragments_Cons)
  next
    case (Cons c cs)
    have nt: "\<not> hasToolCalls c"
      using Cons.prems(2) Cons by (simp add: noToolData_def)
    note step = text_processChoice [OF Cons.prems(1) nt, of "ord n"]
    have "currentContent (fst (recvLoop ord (Suc n) rs (processChoice (ord n) c s))) =
          currentContent (fst (processChoice (ord n) c s)) @ concat (fragments rs)"
      using Cons.prems(2) by (intro Cons.IH step(1)) simp
    then show ?thesis
      using step(2) Cons by (simp add: processResponse_def fragments_Cons)
  qed
qed

lemma commitTurn_entry:
  assumes "history a = Some h"
  shows "history (commitTurn ks l a) =
     Some (h @
       (if streamEndedWithToolCall l then
          (let calls = assistantToolCalls ks (accumulatingToolCalls l)
           in if calls \<noteq> []
              then [\<lparr>Role = ''assistant'', Content = '''', ToolCalls = calls,
                     ToolCallID = '''', msg_Name = ''''\<rparr>]
              else [])
        else if currentContent l \<noteq> ''''
        then [\<lparr>Role = currentRole l, Content = currentContent l, ToolCalls = [],
               ToolCallID = '''', msg_Name = ''''\<rparr>]
        else []))"
  using assms by (simp add: commitTurn_def AddMessage_def Let_def)

text \<open>
  C7, as the claim states it, fails: a stream that yields one text fragment and then
  \<open>io.EOF\<close>, with no finish reason at all, is not an error. \<open>SendMessage\<close> returns
  \<open>(false, nil)\<close> and adds the assistant message to the history.
\<close>

theorem SendMessage_EOF_without_marker_counterexample:
  "finishMarker (textChunk ''hi'') = '''' \<and>
   fst (SendMessage (iterate []) id [userMessage ''q''] (Stream [textChunk ''hi''] EOF) newAgent)
     = Inr False \<and>
   history (snd (SendMessage (iterate []) id [userMessage ''q''] (Stream [textChunk ''hi''] EOF)
     newAgent)) =
     Some [userMessage ''q'',
           \<lparr>Role = ''assistant'', Content = ''hi'', ToolCalls = [], ToolCallID = '''',
            msg_Name = ''''\<rparr>]"
  by (simp add: model_defs example_defs finishMarker_def)

text \<open>
  C7, amended. For every stream that reaches \<open>io.EOF\<close>, with or without a finish reason,
  \<open>SendMessage\<close> returns no error and commits the turn by its flag alone. It returns
  \<open>(b, nil)\<close>, where \<open>b\<close> (\<^const>\<open>toolCallTurn\<close>) tells whether some delta carried tool-call
  data or the finish reason \<open>tool_calls\<close>. The history it leaves is the log the request
  was built from followed by \<^const>\<open>turnEntry\<close>: if \<open>b\<close>, the assistant entry issuing the
  accumulated tool calls (no entry when no id was accumulated), and otherwise the
  assistant entry with the concatenated text fragments (no entry when there is no text).
  When no response carried the finish reason \<open>tool_calls\<close>, no \<open>function_call\<close> item
  reaches the handler in the turn, even if the committed entry issues tool calls.
\<close>

theorem SendMessage_EOF_returns_no_error:
  assumes "history a = Some h"
  shows "fst (SendMessage it gmc messages (Stream rs EOF) a) = Inr (toolCallTurn rs) \<and>
         history (snd (SendMessage it gmc messages (Stream rs EOF) a)) =
           Some (h @ fst (drainPending (pendingOrder it) a) @ messages @
                 turnEntry (commitOrder it) rs) \<and>
         ((\<forall>r \<in> set rs. finishMarker r \<noteq> ''tool_calls'') \<longrightarrow>
            functionCallIDs (handled (snd (SendMessage it gmc messages (Stream rs EOF) a))) =
              functionCallIDs (handled a))"
proof -
  let ?a3 = "a\<lparr>currentHandler := True, pendingToolCalls := {},
         history := Some (h @ fst (drainPending (pendingOrder it) a) @ messages),
         requests := requests a @
           [convertHistory (gmc (h @ fst (drainPending (pendingOrder it) a) @ messages))]\<rparr>"
  let ?s = "recvLoop (readyOrder it) 0 rs (initialLocals, ?a3)"
  have flag: "streamEndedWithToolCall (fst ?s) = toolCallTurn rs"
    by (simp add: flag_recvLoop initialLocals_def toolCallTurn_def)
  have acc: "accumulatingToolCalls (fst ?s) = accumulate (streamToolCalls rs) []"
    by (simp add: acc_recvLoop initialLocals_def)
  have role: "currentRole (fst ?s) = streamRole ''assistant'' rs"
    by (simp add: role_recvLoop initialLocals_def)
  have content: "currentContent (fst ?s) = concat (fragments rs)" if "\<not> toolCallTurn rs"
  proof -
    have "\<forall>r \<in> set rs. noToolData r"
      using that by (simp add: toolCallTurn_def noToolData_iff)
    then show ?thesis
      using content_recvLoop [of "(initialLocals, ?a3)" rs "readyOrder it" 0]
      by (simp add: initialLocals_def)
  qed
  have hist: "history (snd ?s) = Some (h @ fst (drainPending (pendingOrder it) a) @ messages)"
    by simp
  have 1: "fst (SendMessage it gmc messages (Stream rs EOF) a) = Inr (toolCallTurn rs)"
    by (simp add: SendMessage_Stream [OF assms] Let_def flag)
  have 2: "history (snd (SendMessage it gmc messages (Stream rs EOF) a)) =
           Some (h @ fst (drainPending (pendingOrder it) a) @ messages @
                 turnEntry (commitOrder it) rs)"
    using content
    by (simp add: SendMessage_Stream [OF assms] Let_def commitTurn_entry [OF hist]
        flag acc role turnEntry_def)
  have 3: "functionCallIDs (handled (snd (SendMessage it gmc messages (Stream rs EOF) a))) =
              functionCallIDs (handled a)"
    if "\<forall>r \<in> set rs. finishMarker r \<noteq> ''tool_calls''"
    using that
    by (simp add: handled_SendMessage_Stream [OF assms] functionCallIDs_recvLoop_no_marker)
  show ?thesis
    using 1 2 3 by blast
qed

theorem SendMessage_EOF_returns_no_error_witness:
  "history newAgent = Some [] \<and>
   finishMarker (textChunk ''a'') \<noteq> ''tool_calls'' \<and>
   finishMarker (textChunk ''b'') \<noteq> ''tool_calls'' \<and>
   fst (SendMessage (iterate []) id [userMessage ''q'']
     (Stream [textChunk ''a'', textChunk ''b''] EOF) newAgent) = Inr False \<and>
   history (snd (SendMessage (iterate []) id [userMessage ''q'']
     (Stream [textChunk ''a'', textChunk ''b''] EOF) newAgent)) =
     Some [userMessage ''q'',
           \<lparr>Role = ''assistant'', Content = ''ab'', ToolCalls = [], ToolCallID = '''',
            msg_Name = ''''\<rparr>] \<and>
   functionCallIDs (handled (snd (SendMessage (iterate []) id [userMessage ''q'']
     (Stream [textChunk ''a'', textChunk ''b''] EOF) newAgent))) = [] \<and>
   finishMarker (toolChunk ''c1'' ''shell'' ''{}'') \<noteq> ''tool_calls'' \<and>
   fst (SendMessage (iterate [''c1'']) id [userMessage ''q'']
     (Stream [textChunk ''a'', toolChunk ''c1'' ''shell'' ''{}''] EOF) newAgent) = Inr True \<and>
   history (snd (SendMessage (iterate [''c1'']) id [userMessage ''q'']
     (Stream [textChunk ''a'', toolChunk ''c1'' ''shell'' ''{}''] EOF) newAgent)) =
     Some [userMessage ''q'',
           \<lparr>Role = ''assistant'', Content = '''',
            ToolCalls = [\<lparr>tc_ID = ''c1'', tc_Type = ''function'',
              tc_Function = \<lparr>Name = ''shell'', Arguments = ''{}'', ID = ''''\<rparr>\<rparr>],
            ToolCallID = '''', msg_Name = ''''\<rparr>] \<and>
   functionCallIDs (handled (snd (SendMessage (iterate [''c1'']) id [userMessage ''q'']
     (Stream [textChunk ''a'', toolChunk ''c1'' ''shell'' ''{}''] EOF) newAgent))) = []"
proof -
  have h: "history newAgent = Some []"
    by (simp add: newAgent_def)
  have m1: "\<forall>r \<in> set [textChunk ''a'', textChunk ''b'']. finishMarker r \<noteq> ''tool_calls''"
    by (simp add: finishMarker_def textChunk_def)
  have m2: "\<forall>r \<in> set [textChunk ''a'', toolChunk ''c1'' ''shell'' ''{}''].
              finishMarker r \<noteq> ''tool_calls''"
    by (simp add: finishMarker_def textChunk_def toolChunk_def)
  show ?thesis
    using h m1 m2
      SendMessage_EOF_returns_no_error [OF h, of "iterate []" id "[userMessage ''q'']"
        "[textChunk ''a'', textChunk ''b'']"]
      SendMessage_EOF_returns_no_error [OF h, of "iterate [''c1'']" id "[userMessage ''q'']"
        "[textChunk ''a'', toolChunk ''c1'' ''shell'' ''{}'']"]
    by (simp add: toolCallTurn_def turnEntry_def toolData_def finishMarker_def hasToolCalls_def
        fragments_def streamToolCalls_def drainPending_def example_defs functionCallIDs_def
        functionCallItems_def)
qed

end
